theory Spec2Isabelle
  imports Complex_Main "HOL-Library.Char_ord" "HOL-Library.List_Lexorder" "HOL-Library.Option_ord"
begin

section \<open>Python values and errors\<close>

text \<open>
  The solvers of \<^verbatim>\<open>optunity/solvers.py\<close> are Python 2 code (\<^verbatim>\<open>reduce\<close> is used
  as a builtin, the result of \<^verbatim>\<open>zip\<close> is indexed, \<^verbatim>\<open>map\<close> returns a list).
  Every exception the modelled code can raise is a value of \<open>error\<close>.
\<close>

datatype error =
    AssertionError
  | ValueError
  | TypeError
  | ZeroDivisionError
  | IndexError
  | AttributeError
  | OverflowError

text \<open>
  A keyword argument of a sizing helper: a box constraint \<^verbatim>\<open>[lb, ub]\<close> given by the
  caller, or an integer size stored by the helper.
\<close>

datatype kwarg = Box "real list" | Count int

section \<open>Floats\<close>

text \<open>
  A Python float is an IEEE 754 double. Round to nearest, ties to even, on the
  double's 53-bit significand: \<open>x\<close> lies in the binade \<open>2^e \<le> |x| < 2^(e+1)\<close>, whose
  doubles are the multiples of \<open>2^(e-52)\<close>. (Subnormal numbers, below \<open>2^-1022\<close>, do not
  occur where this rounding is used.)
\<close>

definition round_half_even :: "real \<Rightarrow> int" where
  "round_half_even y =
     (let f = \<lfloor>y\<rfloor>; r = y - of_int f in
      if r < 1 / 2 then f else if 1 / 2 < r then f + 1 else if even f then f else f + 1)"

definition round_to_double :: "real \<Rightarrow> real" where
  "round_to_double x =
     (if x = 0 then 0
      else let e = \<lfloor>log 2 \<bar>x\<bar>\<rfloor>; ulp = 2 powi (e - 52) in
        of_int (round_half_even (x / ulp)) * ulp)"

text \<open>
  \<^verbatim>\<open>float(n)\<close> of an integer: the nearest double, and \<^verbatim>\<open>OverflowError\<close> when that is
  beyond the largest double.
\<close>

definition float_of_int :: "int \<Rightarrow> error + real" where
  "float_of_int n =
     (let x = round_to_double (of_int n) in
      if 2 ^ 1024 \<le> \<bar>x\<bar> then Inl OverflowError else Inr x)"

text \<open>
  The values of float arithmetic: the finite numbers, the two infinities and NaN. The
  bounds, the seeds and the results of \<^verbatim>\<open>random.random()\<close> that a caller supplies are
  finite and are given as reals. A sum or product of finite floats whose exact value
  reaches \<open>2^1024 - 2^970\<close>, half a unit in the last place above the largest double,
  is an infinity; below that the operations are taken exact (the rounding of a finite
  result is modelled only in the sizing helpers). The objective function's values
  (scores, costs, fitnesses) are reals.
\<close>

datatype pyfloat = Finite real | PosInf | NegInf | NaN

definition float_limit :: real where
  "float_limit = 2 ^ 1024 - 2 ^ 970"

definition to_float :: "real \<Rightarrow> pyfloat" where
  "to_float r =
     (if float_limit \<le> r then PosInf else if r \<le> - float_limit then NegInf else Finite r)"

fun fneg :: "pyfloat \<Rightarrow> pyfloat" where
  "fneg (Finite a) = Finite (- a)"
| "fneg PosInf = NegInf"
| "fneg NegInf = PosInf"
| "fneg NaN = NaN"

fun fadd :: "pyfloat \<Rightarrow> pyfloat \<Rightarrow> pyfloat" where
  "fadd (Finite a) (Finite b) = to_float (a + b)"
| "fadd NaN _ = NaN"
| "fadd _ NaN = NaN"
| "fadd PosInf NegInf = NaN"
| "fadd NegInf PosInf = NaN"
| "fadd PosInf _ = PosInf"
| "fadd _ PosInf = PosInf"
| "fadd NegInf _ = NegInf"
| "fadd _ NegInf = NegInf"

definition fsub :: "pyfloat \<Rightarrow> pyfloat \<Rightarrow> pyfloat" where
  "fsub a b = fadd a (fneg b)"

text \<open>The sign of a product with an infinity; zero times an infinity is NaN.\<close>

fun fmul :: "pyfloat \<Rightarrow> pyfloat \<Rightarrow> pyfloat" where
  "fmul (Finite a) (Finite b) = to_float (a * b)"
| "fmul NaN _ = NaN"
| "fmul _ NaN = NaN"
| "fmul (Finite a) x = (if a = 0 then NaN else if (0 < a) = (x = PosInf) then PosInf else NegInf)"
| "fmul x (Finite b) = (if b = 0 then NaN else if (0 < b) = (x = PosInf) then PosInf else NegInf)"
| "fmul x y = (if x = y then PosInf else NegInf)"

text \<open>The comparisons \<^verbatim>\<open><\<close> and \<^verbatim>\<open><=\<close> of floats: false whenever an operand is NaN.\<close>

fun fless :: "pyfloat \<Rightarrow> pyfloat \<Rightarrow> bool" where
  "fless (Finite a) (Finite b) \<longleftrightarrow> a < b"
| "fless NaN _ \<longleftrightarrow> False"
| "fless _ NaN \<longleftrightarrow> False"
| "fless NegInf x \<longleftrightarrow> x \<noteq> NegInf"
| "fless x PosInf \<longleftrightarrow> x \<noteq> PosInf"
| "fless _ _ \<longleftrightarrow> False"

definition fle :: "pyfloat \<Rightarrow> pyfloat \<Rightarrow> bool" where
  "fle a b \<longleftrightarrow> fless a b \<or> (a = b \<and> a \<noteq> NaN)"

text \<open>A real in the range of the finite floats.\<close>

definition float_range :: "real \<Rightarrow> bool" where
  "float_range r \<longleftrightarrow> \<bar>r\<bar> < float_limit"

section \<open>Sizing helpers\<close>

text \<open>\<^verbatim>\<open>GridSearch.suggest_from_box(num_evals, **kwargs)\<close>: \<^verbatim>\<open>return kwargs\<close>.\<close>

definition GridSearch_suggest_from_box :: "int \<Rightarrow> (string \<rightharpoonup> 'v) \<Rightarrow> (string \<rightharpoonup> 'v)" where
  "GridSearch_suggest_from_box num_evals kwargs = kwargs"

text \<open>\<^verbatim>\<open>NelderMead.suggest_from_seed(num_evals, **kwargs)\<close>: \<^verbatim>\<open>return kwargs\<close>.\<close>

definition NelderMead_suggest_from_seed :: "int \<Rightarrow> (string \<rightharpoonup> 'v) \<Rightarrow> (string \<rightharpoonup> 'v)" where
  "NelderMead_suggest_from_seed num_evals kwargs = kwargs"

text \<open>
  \<^verbatim>\<open>int(math.ceil(float(num_evals) / c))\<close>: the budget is converted to a float, the
  quotient is a float division (the divisor \<open>c\<close> is 50 or 10, a double), and
  \<^verbatim>\<open>math.ceil\<close> and \<^verbatim>\<open>int\<close> are exact.
\<close>

definition ceil_div :: "int \<Rightarrow> int \<Rightarrow> error + int" where
  "ceil_div num_evals c =
     (case float_of_int num_evals of
        Inl e \<Rightarrow> Inl e
      | Inr x \<Rightarrow> Inr \<lceil>round_to_double (x / of_int c)\<rceil>)"

text \<open>
  \<^verbatim>\<open>ParticleSwarm.suggest_from_box\<close>: a copy of the keyword dictionary with two
  entries stored into it.
\<close>

definition ParticleSwarm_suggest_from_box :: "int \<Rightarrow> (string \<rightharpoonup> kwarg) \<Rightarrow> error + (string \<rightharpoonup> kwarg)" where
  "ParticleSwarm_suggest_from_box num_evals kwargs =
     (let d = kwargs in
      if num_evals > 200 then
        (case ceil_div num_evals 50 of
           Inl e \<Rightarrow> Inl e
         | Inr g \<Rightarrow> Inr ((d(''num_particles'' \<mapsto> Count 50))(''num_generations'' \<mapsto> Count g)))
      else if num_evals > 10 then
        (case ceil_div num_evals 10 of
           Inl e \<Rightarrow> Inl e
         | Inr g \<Rightarrow> Inr ((d(''num_particles'' \<mapsto> Count 10))(''num_generations'' \<mapsto> Count g)))
      else
        Inr ((d(''num_particles'' \<mapsto> Count num_evals))(''num_generations'' \<mapsto> Count 1)))"

text \<open>\<^verbatim>\<open>CSA.suggest_from_box\<close>: the same, with the key \<^verbatim>\<open>num_processes\<close>.\<close>

definition CSA_suggest_from_box :: "int \<Rightarrow> (string \<rightharpoonup> kwarg) \<Rightarrow> error + (string \<rightharpoonup> kwarg)" where
  "CSA_suggest_from_box num_evals kwargs =
     (let d = kwargs in
      if num_evals > 200 then
        (case ceil_div num_evals 50 of
           Inl e \<Rightarrow> Inl e
         | Inr g \<Rightarrow> Inr ((d(''num_processes'' \<mapsto> Count 50))(''num_generations'' \<mapsto> Count g)))
      else if num_evals > 10 then
        (case ceil_div num_evals 10 of
           Inl e \<Rightarrow> Inl e
         | Inr g \<Rightarrow> Inr ((d(''num_processes'' \<mapsto> Count 10))(''num_generations'' \<mapsto> Count g)))
      else
        Inr ((d(''num_processes'' \<mapsto> Count num_evals))(''num_generations'' \<mapsto> Count 1)))"

text \<open>
  What the specification calls \<open>ceil(num_evals/c)\<close>: the least integer \<open>g\<close> with
  \<open>num_evals \<le> c * g\<close>.
\<close>

definition is_ceil :: "int \<Rightarrow> int \<Rightarrow> int \<Rightarrow> bool" where
  "is_ceil num_evals c g \<longleftrightarrow> c * (g - 1) < num_evals \<and> num_evals \<le> c * g"

text \<open>
  The budget-to-size rule of the specification, for the dictionary \<open>d\<close> returned from
  \<open>kwargs\<close>, with \<open>pkey\<close> the key of the population size.
\<close>

definition sized :: "string \<Rightarrow> int \<Rightarrow> (string \<rightharpoonup> kwarg) \<Rightarrow> (string \<rightharpoonup> kwarg) \<Rightarrow> bool" where
  "sized pkey num_evals kwargs d \<longleftrightarrow>
     (\<exists>p g. d = (kwargs(pkey \<mapsto> Count p))(''num_generations'' \<mapsto> Count g) \<and>
        (if num_evals > 200 then p = 50 \<and> is_ceil num_evals 50 g
         else if num_evals > 10 then p = 10 \<and> is_ceil num_evals 10 g
         else p = num_evals \<and> g = 1))"

section \<open>Python builtins used by the solvers\<close>

text \<open>Sequencing of computations that may raise: the first exception ends the run.\<close>

definition bind_err :: "error + 'a \<Rightarrow> ('a \<Rightarrow> error + 'b) \<Rightarrow> error + 'b" where
  "bind_err m k = (case m of Inl e \<Rightarrow> Inl e | Inr v \<Rightarrow> k v)"

text \<open>
  \<^verbatim>\<open>zip(*xss)\<close>: the list of columns of \<open>xss\<close>, cut at the shortest row;
  \<^verbatim>\<open>zip()\<close> of no rows is the empty list.
\<close>

definition min_length :: "'a list list \<Rightarrow> nat" where
  "min_length xss = (case xss of [] \<Rightarrow> 0 | xs # rest \<Rightarrow> fold (\<lambda>ys n. min (length ys) n) rest (length xs))"

definition zip_star :: "'a list list \<Rightarrow> 'a list list" where
  "zip_star xss = map (\<lambda>i. map (\<lambda>xs. xs ! i) xss) [0..<min_length xss]"

text \<open>
  \<^verbatim>\<open>map(f, *columns)\<close>, the default \<^verbatim>\<open>pmap\<close>: with no sequence at all it raises
  TypeError; otherwise \<open>f\<close> is applied to the tuple of the \<open>i\<close>-th elements, in order.
  The columns the solvers pass all have one length, where map's padding of short
  sequences plays no part.
\<close>

definition pmap :: "('a list \<Rightarrow> 'b) \<Rightarrow> 'a list list \<Rightarrow> error + 'b list" where
  "pmap f columns = (if columns = [] then Inl TypeError else Inr (map f (zip_star columns)))"

text \<open>
  \<^verbatim>\<open>max(xs, key=key)\<close> and \<^verbatim>\<open>min(xs, key=key)\<close>: ValueError on an empty sequence;
  otherwise the scan keeps the first item and replaces it only by a later item whose
  key is strictly greater (smaller).
\<close>

definition py_max :: "('a \<Rightarrow> 'k::linorder) \<Rightarrow> 'a list \<Rightarrow> error + 'a" where
  "py_max key xs = (case xs of [] \<Rightarrow> Inl ValueError
     | x # rest \<Rightarrow> Inr (fold (\<lambda>item best. if key item > key best then item else best) rest x))"

definition py_min :: "('a \<Rightarrow> 'k::linorder) \<Rightarrow> 'a list \<Rightarrow> error + 'a" where
  "py_min key xs = (case xs of [] \<Rightarrow> Inl ValueError
     | x # rest \<Rightarrow> Inr (fold (\<lambda>item best. if key item < key best then item else best) rest x))"

text \<open>\<^verbatim>\<open>enumerate(xs)\<close>.\<close>

definition enumerate_py :: "'a list \<Rightarrow> (nat \<times> 'a) list" where
  "enumerate_py xs = zip [0..<length xs] xs"

text \<open>
  The random source: \<open>rnd n\<close> is the \<open>n\<close>-th result of \<^verbatim>\<open>random.random()\<close>, a
  number of the interval \<open>[0, 1)\<close>; the functions that draw take the index of the
  next result. \<^verbatim>\<open>random.uniform(a, b)\<close> is \<^verbatim>\<open>a + (b-a) * self.random()\<close>.
\<close>

type_synonym rng = "nat \<Rightarrow> real"

definition unit_interval :: "rng \<Rightarrow> bool" where
  "unit_interval rnd \<longleftrightarrow> (\<forall>n. 0 \<le> rnd n \<and> rnd n < 1)"

definition uniform :: "real \<Rightarrow> real \<Rightarrow> real \<Rightarrow> real" where
  "uniform a b u = a + (b - a) * u"

text \<open>
  The same expression in float arithmetic, for the calls whose arguments are the
  caller's bounds or are computed from them: \<open>b - a\<close> may overflow, and the result
  is then infinite or NaN.
\<close>

definition uniform_float :: "pyfloat \<Rightarrow> pyfloat \<Rightarrow> real \<Rightarrow> pyfloat" where
  "uniform_float a b u = fadd a (fmul (fsub b a) (Finite u))"

text \<open>
  Modelled from the spec: \<^verbatim>\<open>functions.static_key_order\<close> is not among the sources.
  The objective function accepts one parameter assignment (names to values) and
  returns one scalar score; the wrapper calls it with the positional arguments bound
  to \<open>keys\<close>, in order.
\<close>

definition static_key_order :: "string list \<Rightarrow> ((string \<rightharpoonup> 'v) \<Rightarrow> real) \<Rightarrow> 'v list \<Rightarrow> real" where
  "static_key_order keys f args = f (map_of (zip keys args))"

section \<open>Box constraints and the constructors\<close>

text \<open>
  The keyword dictionary of a constructor, as the list of its items in the
  dictionary's iteration order. The test of the \<^verbatim>\<open>assert\<close> statement:
  \<^verbatim>\<open>all([len(v) == 2 and v[0] <= v[1] for v in kwargs.values()])\<close>.
\<close>

type_synonym 'v kwargs = "(string \<times> 'v) list"

definition bounds_asserted :: "real list kwargs \<Rightarrow> bool" where
  "bounds_asserted kwargs = list_all (\<lambda>v. length v = 2 \<and> v ! 0 \<le> v ! 1) (map snd kwargs)"

record random_search =
  rs_bounds :: "real list kwargs"
  rs_num_evals :: int

definition RandomSearch_init :: "int \<Rightarrow> real list kwargs \<Rightarrow> error + random_search" where
  "RandomSearch_init num_evals kwargs =
     (if \<not> bounds_asserted kwargs then Inl AssertionError
      else Inr \<lparr>rs_bounds = kwargs, rs_num_evals = num_evals\<rparr>)"

text \<open>
  \<^verbatim>\<open>collections.namedtuple('ttype', kwargs.keys())\<close>, called by the constructor
  of \<^verbatim>\<open>ParticleSwarm\<close>, checks the field names as Python 2.7 does. In a first
  pass over the names: only alphanumeric characters and underscores, not a keyword,
  no digit in front (\<^verbatim>\<open>name[0]\<close> raises IndexError for the empty name). In a second
  pass: no underscore in front, no name twice. Every other failure is a ValueError.
\<close>

definition alphanumeric :: "char list" where
  "alphanumeric = ''abcdefghijklmnopqrstuvwxyzABCDEFGHIJKLMNOPQRSTUVWXYZ0123456789''"

definition digits :: "char list" where
  "digits = ''0123456789''"

definition kwlist :: "string list" where
  "kwlist = [''and'', ''as'', ''assert'', ''break'', ''class'', ''continue'', ''def'', ''del'',
     ''elif'', ''else'', ''except'', ''exec'', ''finally'', ''for'', ''from'', ''global'', ''if'',
     ''import'', ''in'', ''is'', ''lambda'', ''not'', ''or'', ''pass'', ''print'', ''raise'',
     ''return'', ''try'', ''while'', ''with'', ''yield'']"

fun namedtuple_first_pass :: "string list \<Rightarrow> error option" where
  "namedtuple_first_pass [] = None"
| "namedtuple_first_pass (name # names) =
     (if \<not> list_all (\<lambda>c. c \<in> set alphanumeric \<or> c = CHR ''_'') name then Some ValueError
      else if name \<in> set kwlist then Some ValueError
      else case name of
             [] \<Rightarrow> Some IndexError
           | c # _ \<Rightarrow> if c \<in> set digits then Some ValueError else namedtuple_first_pass names)"

fun namedtuple_second_pass :: "string list \<Rightarrow> string list \<Rightarrow> error option" where
  "namedtuple_second_pass seen [] = None"
| "namedtuple_second_pass seen (name # names) =
     (if take 1 name = ''_'' then Some ValueError
      else if name \<in> set seen then Some ValueError
      else namedtuple_second_pass (name # seen) names)"

definition namedtuple :: "string \<Rightarrow> string list \<Rightarrow> error + string list" where
  "namedtuple typename field_names =
     (case namedtuple_first_pass (typename # field_names) of
        Some e \<Rightarrow> Inl e
      | None \<Rightarrow>
          (case namedtuple_second_pass [] field_names of
             Some e \<Rightarrow> Inl e
           | None \<Rightarrow> Inr field_names))"

record particle_swarm =
  ps_bounds :: "real list kwargs"
  ps_ttype :: "string list"
  ps_num_particles :: int
  ps_num_generations :: int
  ps_max_speed :: real
  ps_smax :: "pyfloat list"
  ps_smin :: "pyfloat list"
  ps_phi1 :: real
  ps_phi2 :: real


record csa =
  csa_bounds :: "real list kwargs"
  csa_num_dimensions :: nat
  csa_num_processes :: int
  csa_num_generations :: int
  csa_T_0 :: real
  csa_Tacc_0 :: real



section \<open>GridSearch\<close>




section \<open>RandomSearch\<close>

text \<open>
  \<^verbatim>\<open>generate_rand_args(len)\<close>: for every parameter, in the order of the sorted items,
  \<open>len\<close> draws \<^verbatim>\<open>random.uniform(bounds[0], bounds[1])\<close>; \<open>i\<close> is the index of the next
  result of the random source.
\<close>

fun generate_rand_args :: "rng \<Rightarrow> nat \<Rightarrow> nat \<Rightarrow> real list kwargs \<Rightarrow> pyfloat list list" where
  "generate_rand_args rnd i len [] = []"
| "generate_rand_args rnd i len ((_, bounds) # rest) =
     map (\<lambda>j. uniform_float (Finite (bounds ! 0)) (Finite (bounds ! 1)) (rnd (i + j))) [0..<len]
       # generate_rand_args rnd (i + len) len rest"

text \<open>\<^verbatim>\<open>RandomSearch.optimize\<close>; \<^verbatim>\<open>range(num_evals)\<close> is empty for \<open>num_evals \<le> 0\<close>.\<close>

definition RandomSearch_optimize ::
  "random_search \<Rightarrow> rng \<Rightarrow> ((string \<rightharpoonup> pyfloat) \<Rightarrow> real) \<Rightarrow> bool \<Rightarrow> error + (string \<times> pyfloat) list" where
  "RandomSearch_optimize self rnd f maximize =
     (let sortedkeys = sort (map fst (rs_bounds self));
          f' = static_key_order sortedkeys f;
          tuples = generate_rand_args rnd 0 (nat (rs_num_evals self)) (sort_key fst (rs_bounds self))
      in bind_err (pmap f' tuples) (\<lambda>scores.
         bind_err ((if maximize then py_max else py_min) snd (enumerate_py scores)) (\<lambda>(best_idx, _).
           let best_pars = zip_star tuples ! best_idx
           in Inr (zip sortedkeys best_pars))))"

section \<open>Selection of the extremum, in the specification's words\<close>

text \<open>
  Index \<open>i\<close> holds the best score (the greatest when maximizing, the least when
  minimizing) and is the first index that does: every earlier score is strictly worse.
\<close>

definition first_best :: "bool \<Rightarrow> real list \<Rightarrow> nat \<Rightarrow> bool" where
  "first_best maximize scores i \<longleftrightarrow>
     i < length scores \<and>
     (\<forall>j < length scores. if maximize then scores ! j \<le> scores ! i else scores ! i \<le> scores ! j) \<and>
     (\<forall>j < i. if maximize then scores ! j < scores ! i else scores ! i < scores ! j)"

text \<open>
  The assignment of a box-constrained solver stays in the box: it has the parameter
  names of the bounds, and the value of every parameter lies between the two elements
  of that parameter's bound.
\<close>

definition within_box :: "real list kwargs \<Rightarrow> (string \<times> pyfloat) list \<Rightarrow> bool" where
  "within_box bounds assignment \<longleftrightarrow>
     map fst assignment = sort (map fst bounds) \<and>
     (\<forall>(k, b) \<in> set bounds. \<forall>v. (k, v) \<in> set assignment \<longrightarrow>
        fle (Finite (b ! 0)) v \<and> fle v (Finite (b ! 1)))"

text \<open>
  The bounds are finite floats and no width \<open>upper - lower\<close> overflows.
\<close>

definition float_box :: "real list kwargs \<Rightarrow> bool" where
  "float_box bounds =
     list_all (\<lambda>b. float_range (b ! 0) \<and> float_range (b ! 1) \<and> float_range (b ! 1 - b ! 0))
       (map snd bounds)"

section \<open>Drawing a point in the box\<close>

text \<open>
  A loop over a list whose body draws from the random source and may raise: the
  state of the loop (the index of the next random result, alone or with the other
  variables the body assigns) is threaded through the iterations.
\<close>

fun mapM_rng :: "('s \<Rightarrow> 'a \<Rightarrow> error + 'b \<times> 's) \<Rightarrow> 's \<Rightarrow> 'a list \<Rightarrow> error + 'b list \<times> 's" where
  "mapM_rng step i [] = Inr ([], i)"
| "mapM_rng step i (a # as) =
     bind_err (step i a) (\<lambda>(b, i').
     bind_err (mapM_rng step i' as) (\<lambda>(bs, i'').
       Inr (b # bs, i'')))"

text \<open>A list comprehension whose element expression may raise.\<close>

fun mapM :: "('a \<Rightarrow> error + 'b) \<Rightarrow> 'a list \<Rightarrow> error + 'b list" where
  "mapM g [] = Inr []"
| "mapM g (a # as) = bind_err (g a) (\<lambda>b. bind_err (mapM g as) (\<lambda>bs. Inr (b # bs)))"

text \<open>
  \<^verbatim>\<open>uniform_in_bounds(bounds)\<close>: \<^verbatim>\<open>map(random.uniform, *zip(*bounds.values()))\<close>.
  For bounds that passed the constructor's assertion \<^verbatim>\<open>zip(*values)\<close> is the pair
  of the tuple of lower bounds and the tuple of upper bounds; with no bound at all it
  is empty and \<^verbatim>\<open>map\<close> raises TypeError, as \<^verbatim>\<open>random.uniform\<close> does when it is
  not given two arguments.
\<close>

definition uniform_in_bounds :: "rng \<Rightarrow> nat \<Rightarrow> real list kwargs \<Rightarrow> error + real list \<times> nat" where
  "uniform_in_bounds rnd i bounds =
     (case zip_star (map snd bounds) of
        [lbs, ubs] \<Rightarrow>
          Inr (map (\<lambda>j. uniform (lbs ! j) (ubs ! j) (rnd (i + j))) [0..<length lbs],
               i + length lbs)
      | _ \<Rightarrow> Inl TypeError)"

text \<open>
  The same function in float arithmetic, where the draws may be infinite or NaN.
\<close>

definition uniform_in_bounds_float :: "rng \<Rightarrow> nat \<Rightarrow> real list kwargs \<Rightarrow> error + pyfloat list \<times> nat" where
  "uniform_in_bounds_float rnd i bounds =
     (case zip_star (map snd bounds) of
        [lbs, ubs] \<Rightarrow>
          Inr (map (\<lambda>j. uniform_float (Finite (lbs ! j)) (Finite (ubs ! j)) (rnd (i + j)))
                 [0..<length lbs],
               i + length lbs)
      | _ \<Rightarrow> Inl TypeError)"

text \<open>
  \<^verbatim>\<open>f(**dict([(k, v) for k, v in zip(self.bounds.keys(), state)]))\<close>, the
  \<^verbatim>\<open>evaluate\<close> of \<^verbatim>\<open>ParticleSwarm.optimize\<close> and \<^verbatim>\<open>CSA.optimize\<close>.
\<close>

definition evaluate :: "real list kwargs \<Rightarrow> ((string \<rightharpoonup> 'v) \<Rightarrow> real) \<Rightarrow> 'v list \<Rightarrow> real" where
  "evaluate bounds f state = f (map_of (zip (map fst bounds) state))"

section \<open>Coupled simulated annealing\<close>

text \<open>
  \<^verbatim>\<open>class CSA.SA\<close>, one annealing process. A field that holds \<^verbatim>\<open>None\<close> is
  \<open>None\<close>; the order of \<open>real option\<close> puts \<open>None\<close> below every number, as
  Python 2 orders \<^verbatim>\<open>None\<close> and floats. The states, the temperatures and the
  probabilities of the annealing are reals, and \<^verbatim>\<open>math.exp\<close> is the real exponential:
  a box beyond the float range, the underflow of \<^verbatim>\<open>math.exp\<close> to \<open>0.0\<close> and its
  OverflowError are outside this part of the model, which therefore says what a run
  that returns has computed, not that a run returns.
\<close>

record sa =
  sa_x :: "real list"
  sa_y :: "real list option"
  sa_cost :: "real option"
  sa_ycost :: "real option"
  sa_log :: "(real list \<times> real option) list"

definition SA_init :: "real list \<Rightarrow> sa" where
  "SA_init x0 = \<lparr>sa_x = x0, sa_y = Some x0, sa_cost = None, sa_ycost = None, sa_log = []\<rparr>"

text \<open>
  \<^verbatim>\<open>SA.accept(accept_probability)\<close>, with \<open>r\<close> the result of \<^verbatim>\<open>random.random()\<close>
  behind \<^verbatim>\<open>random.uniform(0, 1)\<close>. \<^verbatim>\<open>self.y[:]\<close> raises TypeError when \<open>y\<close> is
  \<^verbatim>\<open>None\<close>.
\<close>

definition SA_accept :: "real \<Rightarrow> real \<Rightarrow> sa \<Rightarrow> error + sa" where
  "SA_accept accept_probability r self =
     (case sa_y self of
        None \<Rightarrow> Inl TypeError
      | Some y \<Rightarrow>
          let self = self\<lparr>sa_log := sa_log self @ [(y, sa_ycost self)]\<rparr> in
          if uniform 0 1 r \<le> accept_probability then
            Inr (self\<lparr>sa_x := y, sa_cost := sa_ycost self, sa_y := None, sa_ycost := None\<rparr>)
          else
            Inr (self\<lparr>sa_y := None, sa_ycost := None\<rparr>))"

text \<open>\<^verbatim>\<open>CSA.cauchy_sample()\<close> and \<^verbatim>\<open>CSA.g(Tk)\<close>.\<close>

definition cauchy_sample :: "real \<Rightarrow> real" where
  "cauchy_sample r = tan (pi * (uniform 0 1 r - 0.5))"

definition CSA_g :: "csa \<Rightarrow> rng \<Rightarrow> nat \<Rightarrow> real \<Rightarrow> real list \<times> nat" where
  "CSA_g self rnd i Tk =
     (map (\<lambda>j. Tk * cauchy_sample (rnd (i + j))) [0..<csa_num_dimensions self],
      i + csa_num_dimensions self)"

text \<open>
  \<^verbatim>\<open>SA.generate(gk, Tk)\<close>: \<^verbatim>\<open>self._y = map(op.add, self.x, eps)\<close>; Python 2's
  \<^verbatim>\<open>map\<close> pads the shorter list with \<^verbatim>\<open>None\<close>, on which the addition raises.
\<close>

definition SA_generate :: "csa \<Rightarrow> rng \<Rightarrow> real \<Rightarrow> nat \<Rightarrow> sa \<Rightarrow> error + sa \<times> nat" where
  "SA_generate solver rnd Tk i self =
     (let (eps, i') = CSA_g solver rnd i Tk in
      if length (sa_x self) \<noteq> length eps then Inl TypeError
      else Inr (self\<lparr>sa_y := Some (map (\<lambda>(a, b). a + b) (zip (sa_x self) eps))\<rparr>, i'))"

text \<open>\<^verbatim>\<open>CSA.T(k)\<close>, \<^verbatim>\<open>CSA.Tacc(k)\<close> and \<^verbatim>\<open>CSA.exp(cost, multiplier, k)\<close>.\<close>

definition CSA_T :: "csa \<Rightarrow> real \<Rightarrow> real" where
  "CSA_T self k = csa_T_0 self / (k + 1)"

definition CSA_Tacc :: "csa \<Rightarrow> real \<Rightarrow> real" where
  "CSA_Tacc self k = (if k \<noteq> 0 then csa_Tacc_0 self / ln (k + 1) else csa_Tacc_0 self)"

definition CSA_exp :: "csa \<Rightarrow> real \<Rightarrow> real \<Rightarrow> real \<Rightarrow> error + real" where
  "CSA_exp self cost multiplier k =
     (if CSA_Tacc self k = 0 then Inl ZeroDivisionError
      else Inr (exp (- cost * multiplier / CSA_Tacc self k)))"

text \<open>\<^verbatim>\<open>mult\<close> and \<^verbatim>\<open>comp\<close> of \<^verbatim>\<open>CSA.optimize\<close>.\<close>

definition CSA_mult :: "bool \<Rightarrow> real" where
  "CSA_mult maximize = (if maximize then - 1 else 1)"

definition CSA_comp :: "bool \<Rightarrow> real option \<Rightarrow> real option \<Rightarrow> bool" where
  "CSA_comp maximize a b = (if maximize then a > b else a < b)"

text \<open>
  \<^verbatim>\<open>gamma = reduce(op.add, [self.exp(proc.cost, mult, k) for proc in processes])\<close>;
  \<^verbatim>\<open>reduce\<close> of an empty list raises TypeError, as does \<^verbatim>\<open>-cost\<close> for a cost
  that is \<^verbatim>\<open>None\<close>.
\<close>

definition CSA_gamma :: "csa \<Rightarrow> bool \<Rightarrow> real \<Rightarrow> sa list \<Rightarrow> error + real" where
  "CSA_gamma self maximize k processes =
     bind_err (mapM (\<lambda>proc. case sa_cost proc of None \<Rightarrow> Inl TypeError
                              | Some cost \<Rightarrow> CSA_exp self cost (CSA_mult maximize) k) processes)
       (\<lambda>exps. case exps of [] \<Rightarrow> Inl TypeError | e # es \<Rightarrow> Inr (foldl (+) e es))"

text \<open>
  The acceptance probability of one process, lines 1112 to 1116 of
  \<^verbatim>\<open>CSA.optimize\<close>:
  \<^verbatim>\<open>if comp(process.ycost, process.cost): accept_probability = 1.0\<close>
  \<^verbatim>\<open>else: expcost = self.exp(ycost, mult, k); accept_probability = expcost / (expcost + gamma)\<close>.
\<close>

definition CSA_accept_probability ::
  "csa \<Rightarrow> bool \<Rightarrow> real \<Rightarrow> real \<Rightarrow> real option \<Rightarrow> real \<Rightarrow> error + real" where
  "CSA_accept_probability self maximize k gamma cost ycost =
     (if CSA_comp maximize (Some ycost) cost then Inr 1
      else bind_err (CSA_exp self ycost (CSA_mult maximize) k) (\<lambda>expcost.
             if expcost + gamma = 0 then Inl ZeroDivisionError
             else Inr (expcost / (expcost + gamma))))"

text \<open>The states \<^verbatim>\<open>[p.y for p in processes]\<close> and their costs \<^verbatim>\<open>pmap(evaluate, states)\<close>.\<close>

definition CSA_costs :: "csa \<Rightarrow> ((string \<rightharpoonup> real) \<Rightarrow> real) \<Rightarrow> sa list \<Rightarrow> error + real list" where
  "CSA_costs self f processes =
     mapM (\<lambda>p. case sa_y p of None \<Rightarrow> Inl TypeError
                | Some state \<Rightarrow> Inr (evaluate (csa_bounds self) f state)) processes"

text \<open>One pass of the loop \<^verbatim>\<open>for iteration in range(self.num_generations - 1)\<close>.\<close>

definition CSA_generation ::
  "csa \<Rightarrow> rng \<Rightarrow> ((string \<rightharpoonup> real) \<Rightarrow> real) \<Rightarrow> bool \<Rightarrow> nat \<Rightarrow> sa list \<times> nat \<Rightarrow> error + sa list \<times> nat" where
  "CSA_generation self rnd f maximize iteration st =
     (let (processes, i) = st; k = real iteration in
      bind_err (mapM_rng (SA_generate self rnd (CSA_T self k)) i processes) (\<lambda>(processes, i).
      bind_err (CSA_costs self f processes) (\<lambda>costs.
      bind_err (CSA_gamma self maximize k processes) (\<lambda>gamma.
        mapM_rng (\<lambda>i (process, ycost).
            let process = process\<lparr>sa_ycost := Some ycost\<rparr> in
            bind_err (CSA_accept_probability self maximize k gamma (sa_cost process) ycost)
              (\<lambda>accept_probability.
            bind_err (SA_accept accept_probability (rnd i) process) (\<lambda>process.
              Inr (process, Suc i))))
          i (zip processes costs)))))"


text \<open>
  The initialization of \<^verbatim>\<open>CSA.optimize\<close>: the processes start at random points of
  the box, are evaluated, and accept their start with probability \<open>1.0\<close>.
\<close>

definition CSA_initialization ::
  "csa \<Rightarrow> rng \<Rightarrow> ((string \<rightharpoonup> real) \<Rightarrow> real) \<Rightarrow> error + sa list \<times> nat" where
  "CSA_initialization self rnd f =
     bind_err (mapM_rng (\<lambda>i _. bind_err (uniform_in_bounds rnd i (csa_bounds self))
                                  (\<lambda>(x0, i'). Inr (SA_init x0, i')))
                 0 [0..<nat (csa_num_processes self)]) (\<lambda>(processes, i).
     bind_err (CSA_costs self f processes) (\<lambda>costs.
       mapM_rng (\<lambda>i (process, cost).
           bind_err (SA_accept 1 (rnd i) (process\<lparr>sa_ycost := Some cost\<rparr>)) (\<lambda>process.
             Inr (process, Suc i)))
         i (zip processes costs)))"



section \<open>The acceptance rule of coupled annealing, in the specification's words\<close>

text \<open>A run used as example: one process on the box \<open>x \<in> [0, 1]\<close>, a constant objective.\<close>

definition csa0 :: csa where
  "csa0 = \<lparr>csa_bounds = [(''x'', [0, 1])], csa_num_dimensions = 1, csa_num_processes = 1,
            csa_num_generations = 2, csa_T_0 = 1, csa_Tacc_0 = 1\<rparr>"

definition sa0 :: sa where
  "sa0 = \<lparr>sa_x = [1 / 2], sa_y = None, sa_cost = Some 0, sa_ycost = None,
           sa_log = [([1 / 2], Some 0)]\<rparr>"

definition rnd0 :: rng where
  "rnd0 n = (if n < 2 then 1 / 2 else 3 / 4)"

definition f0 :: "(string \<rightharpoonup> real) \<Rightarrow> real" where
  "f0 assignment = 0"

text \<open>
  The coupling term \<open>\<gamma>(k)\<close>: the sum over the processes of
  \<open>exp(-cost(x) * sign / Tacc(k))\<close>, for the accepted costs of the processes.
\<close>

definition coupling_term :: "csa \<Rightarrow> bool \<Rightarrow> real \<Rightarrow> real list \<Rightarrow> real" where
  "coupling_term self maximize k costs =
     sum_list (map (\<lambda>cost. exp (- cost * CSA_mult maximize / CSA_Tacc self k)) costs)"

text \<open>The proposal's cost strictly improves on the current cost.\<close>

definition improves :: "bool \<Rightarrow> real \<Rightarrow> real \<Rightarrow> bool" where
  "improves maximize ycost cost = (if maximize then ycost > cost else ycost < cost)"

text \<open>
  The acceptance probability: \<open>acceptance\<close> with the denominator \<open>expcost + \<gamma>\<close>,
  \<open>claimed_acceptance\<close> with the denominator \<open>\<gamma>\<close> that the specification
  gives.
\<close>

definition acceptance :: "csa \<Rightarrow> bool \<Rightarrow> real \<Rightarrow> real list \<Rightarrow> real \<Rightarrow> real \<Rightarrow> real" where
  "acceptance self maximize k costs cost ycost =
     (if improves maximize ycost cost then 1
      else exp (- ycost * CSA_mult maximize / CSA_Tacc self k) /
           (exp (- ycost * CSA_mult maximize / CSA_Tacc self k) + coupling_term self maximize k costs))"

definition claimed_acceptance :: "csa \<Rightarrow> bool \<Rightarrow> real \<Rightarrow> real list \<Rightarrow> real \<Rightarrow> real \<Rightarrow> real" where
  "claimed_acceptance self maximize k costs cost ycost =
     (if improves maximize ycost cost then 1
      else exp (- ycost * CSA_mult maximize / CSA_Tacc self k) / coupling_term self maximize k costs)"

text \<open>
  The proposal \<open>y\<close> of process \<open>p\<close> in generation \<open>k\<close>, drawn from index \<open>i\<close>
  of the random source, and the process after the decision on a proposal \<open>y\<close> of cost
  \<open>ycost\<close>: the proposal is logged in both cases.
\<close>

definition CSA_proposal :: "csa \<Rightarrow> rng \<Rightarrow> nat \<Rightarrow> real \<Rightarrow> sa \<Rightarrow> real list" where
  "CSA_proposal self rnd i k p =
     map (\<lambda>(a, b). a + b) (zip (sa_x p) (fst (CSA_g self rnd i (CSA_T self k))))"

definition SA_decided :: "bool \<Rightarrow> real list \<Rightarrow> real \<Rightarrow> sa \<Rightarrow> sa" where
  "SA_decided accepted y ycost p =
     (if accepted
      then p\<lparr>sa_x := y, sa_y := None, sa_cost := Some ycost, sa_ycost := None,
             sa_log := sa_log p @ [(y, Some ycost)]\<rparr>
      else p\<lparr>sa_y := None, sa_ycost := None, sa_log := sa_log p @ [(y, Some ycost)]\<rparr>)"







section \<open>Particle swarm optimization\<close>

text \<open>
  \<^verbatim>\<open>class ParticleSwarm.Particle\<close>. The position is an array that is updated in
  place and that \<^verbatim>\<open>part.best = part.position\<close> binds to a second name, so arrays
  live in a heap and the fields \<open>p_position\<close> and \<open>p_best\<close> hold addresses. The speed
  is bound to a fresh array at every update and is held by value. The arrays are
  arrays of doubles, and the arithmetic on them is float arithmetic.
\<close>

record particle =
  p_position :: nat
  p_speed :: "pyfloat list"
  p_best :: "nat option"
  p_fitness :: "real option"
  p_best_fitness :: "real option"

text \<open>
  The variables of \<^verbatim>\<open>ParticleSwarm.optimize\<close> beside the population: the swarm's
  \<^verbatim>\<open>best\<close>, the heap of arrays with its next free address, and the index of the
  next random result.
\<close>

record pso_state =
  st_best :: "particle option"
  st_heap :: "nat \<Rightarrow> pyfloat list"
  st_free :: nat
  st_rng :: nat

text \<open>
  \<^verbatim>\<open>ParticleSwarm.generate()\<close>: a position drawn in the box and a speed drawn by
  \<^verbatim>\<open>map(random.uniform, self.smin, self.smax)\<close>.
\<close>

definition PSO_generate :: "particle_swarm \<Rightarrow> rng \<Rightarrow> pso_state \<Rightarrow> error + particle \<times> pso_state" where
  "PSO_generate self rnd st =
     bind_err (uniform_in_bounds_float rnd (st_rng st) (ps_bounds self)) (\<lambda>(position, i).
       let speed = map (\<lambda>j. uniform_float (ps_smin self ! j) (ps_smax self ! j) (rnd (i + j)))
                     [0..<length (ps_smin self)];
           a = st_free st
       in Inr (\<lparr>p_position = a, p_speed = speed, p_best = None, p_fitness = None,
                p_best_fitness = None\<rparr>,
               st\<lparr>st_heap := (st_heap st)(a := position), st_free := Suc a,
                  st_rng := i + length (ps_smin self)\<rparr>))"

text \<open>
  \<^verbatim>\<open>Particle.clone()\<close>: copies of the position and of the best position;
  \<^verbatim>\<open>self.best[:]\<close> raises TypeError when \<open>best\<close> is \<^verbatim>\<open>None\<close>.
\<close>

definition Particle_clone :: "particle \<Rightarrow> pso_state \<Rightarrow> error + particle \<times> pso_state" where
  "Particle_clone self st =
     (case p_best self of
        None \<Rightarrow> Inl TypeError
      | Some b \<Rightarrow>
          let a = st_free st; heap = st_heap st
          in Inr (self\<lparr>p_position := a, p_best := Some (Suc a)\<rparr>,
                  st\<lparr>st_heap := heap(a := heap (p_position self), Suc a := heap b),
                     st_free := a + 2\<rparr>))"

text \<open>
  The body of \<^verbatim>\<open>for part, fitness in zip(pop, fitnesses)\<close>. \<^verbatim>\<open>not part.best\<close>
  holds for \<^verbatim>\<open>None\<close> and for an empty array; \<^verbatim>\<open>not best\<close> holds for \<^verbatim>\<open>None\<close>
  only, \<open>best\<close> being an instance of a class without length.
\<close>

definition PSO_record_fitness :: "real \<Rightarrow> pso_state \<Rightarrow> particle \<times> real \<Rightarrow> error + particle \<times> pso_state" where
  "PSO_record_fitness fit st pf =
     (let (part, fitness) = pf;
          part = part\<lparr>p_fitness := Some (fit * fitness)\<rparr>;
          part = (if (case p_best part of None \<Rightarrow> True | Some b \<Rightarrow> st_heap st b = [])
                     \<or> p_best_fitness part < p_fitness part
                  then part\<lparr>p_best := Some (p_position part), p_best_fitness := p_fitness part\<rparr>
                  else part)
      in if (case st_best st of None \<Rightarrow> True | Some best \<Rightarrow> p_fitness best < p_fitness part)
         then bind_err (Particle_clone part st) (\<lambda>(best, st). Inr (part, st\<lparr>st_best := Some best\<rparr>))
         else Inr (part, st))"

text \<open>
  The loop \<^verbatim>\<open>for i, speed in enumerate(part.speed)\<close> of \<^verbatim>\<open>updateParticle\<close>, for a
  speed no longer than \<open>smin\<close> and \<open>smax\<close>.
\<close>

definition clamp_speed :: "pyfloat list \<Rightarrow> pyfloat list \<Rightarrow> pyfloat list \<Rightarrow> pyfloat list" where
  "clamp_speed smin smax speed =
     map (\<lambda>i. if fless (speed ! i) (smin ! i) then smin ! i
               else if fless (smax ! i) (speed ! i) then smax ! i
               else speed ! i) [0..<length speed]"

text \<open>
  \<^verbatim>\<open>ParticleSwarm.updateParticle(part, best, phi1, phi2)\<close>, with \<open>best\<close> read from
  the state. Python 2's \<^verbatim>\<open>map\<close> pads a shorter argument with \<^verbatim>\<open>None\<close>, on which
  the arithmetic raises TypeError, so the arrays must have one length; an index
  beyond \<open>smin\<close> raises IndexError. \<^verbatim>\<open>random.uniform(0, phi)\<close> is \<open>phi\<close> times the draw.
\<close>

definition updateParticle ::
  "particle_swarm \<Rightarrow> rng \<Rightarrow> real \<Rightarrow> real \<Rightarrow> pso_state \<Rightarrow> particle \<Rightarrow> error + particle \<times> pso_state" where
  "updateParticle self rnd phi1 phi2 st part =
     (let heap = st_heap st; i = st_rng st;
          position = heap (p_position part); n = length position;
          u1 = map (\<lambda>j. Finite (uniform 0 phi1 (rnd (i + j)))) [0..<n];
          u2 = map (\<lambda>j. Finite (uniform 0 phi2 (rnd (i + n + j)))) [0..<n]
      in case p_best part of
           None \<Rightarrow> Inl TypeError
         | Some b \<Rightarrow>
             if length (heap b) \<noteq> n then Inl TypeError
             else
               let v_u1 = map (\<lambda>(u, d). fmul u d) (zip u1 (map (\<lambda>(a, b). fsub a b) (zip (heap b) position)))
               in case st_best st of
                    None \<Rightarrow> Inl AttributeError
                  | Some best \<Rightarrow>
                      if length (heap (p_position best)) \<noteq> n \<or> length (p_speed part) \<noteq> n
                      then Inl TypeError
                      else
                        let v_u2 = map (\<lambda>(u, d). fmul u d)
                                     (zip u2 (map (\<lambda>(a, b). fsub a b) (zip (heap (p_position best)) position)));
                            speed = map (\<lambda>(a, b). fadd a b)
                                      (zip (p_speed part) (map (\<lambda>(a, b). fadd a b) (zip v_u1 v_u2)))
                        in if length (ps_smin self) < n \<or> length (ps_smax self) < n then Inl IndexError
                           else
                             let speed = clamp_speed (ps_smin self) (ps_smax self) speed;
                                 position = map (\<lambda>(a, b). fadd a b) (zip position speed)
                             in Inr (part\<lparr>p_speed := speed\<rparr>,
                                     st\<lparr>st_heap := heap(p_position part := position),
                                        st_rng := i + 2 * n\<rparr>))"

text \<open>One pass of the loop \<^verbatim>\<open>for g in range(self.num_generations)\<close>.\<close>

definition PSO_generation ::
  "particle_swarm \<Rightarrow> rng \<Rightarrow> ((string \<rightharpoonup> pyfloat) \<Rightarrow> real) \<Rightarrow> bool \<Rightarrow> particle list \<times> pso_state
     \<Rightarrow> error + particle list \<times> pso_state" where
  "PSO_generation self rnd f maximize swarm =
     (let (pop, st) = swarm;
          fit = (if maximize then 1 else - 1);
          fitnesses = map (\<lambda>part. evaluate (ps_bounds self) f (st_heap st (p_position part))) pop
      in bind_err (mapM_rng (PSO_record_fitness fit) st (zip pop fitnesses)) (\<lambda>(pop, st).
           mapM_rng (updateParticle self rnd (ps_phi1 self) (ps_phi2 self)) st pop))"

text \<open>The population and the state after \<open>g\<close> passes of the loop.\<close>

fun PSO_generations ::
  "particle_swarm \<Rightarrow> rng \<Rightarrow> ((string \<rightharpoonup> pyfloat) \<Rightarrow> real) \<Rightarrow> bool \<Rightarrow> nat \<Rightarrow> particle list \<times> pso_state
     \<Rightarrow> error + particle list \<times> pso_state" where
  "PSO_generations self rnd f maximize 0 swarm = Inr swarm"
| "PSO_generations self rnd f maximize (Suc g) swarm =
     bind_err (PSO_generations self rnd f maximize g swarm) (PSO_generation self rnd f maximize)"

text \<open>\<^verbatim>\<open>pop = [self.generate() for _ in range(self.num_particles)]\<close> and \<^verbatim>\<open>best = None\<close>.\<close>

definition PSO_population :: "particle_swarm \<Rightarrow> rng \<Rightarrow> error + particle list \<times> pso_state" where
  "PSO_population self rnd =
     mapM_rng (\<lambda>st _. PSO_generate self rnd st)
       \<lparr>st_best = None, st_heap = (\<lambda>a. []), st_free = 0, st_rng = 0\<rparr>
       [0..<nat (ps_num_particles self)]"

definition PSO_swarm_after ::
  "particle_swarm \<Rightarrow> rng \<Rightarrow> ((string \<rightharpoonup> pyfloat) \<Rightarrow> real) \<Rightarrow> bool \<Rightarrow> nat \<Rightarrow> error + particle list \<times> pso_state" where
  "PSO_swarm_after self rnd f maximize g =
     bind_err (PSO_population self rnd) (PSO_generations self rnd f maximize g)"

text \<open>
  \<^verbatim>\<open>ParticleSwarm.optimize\<close>; \<^verbatim>\<open>best.position\<close> raises AttributeError when no
  particle was ever evaluated.
\<close>

definition ParticleSwarm_optimize ::
  "particle_swarm \<Rightarrow> rng \<Rightarrow> ((string \<rightharpoonup> pyfloat) \<Rightarrow> real) \<Rightarrow> bool \<Rightarrow> error + (string \<times> pyfloat) list" where
  "ParticleSwarm_optimize self rnd f maximize =
     bind_err (PSO_swarm_after self rnd f maximize (nat (ps_num_generations self))) (\<lambda>(pop, st).
       case st_best st of
         None \<Rightarrow> Inl AttributeError
       | Some best \<Rightarrow> Inr (zip (map fst (ps_bounds self)) (st_heap st (p_position best))))"













section \<open>Nelder-Mead\<close>

text \<open>
  \<^verbatim>\<open>NelderMead.scale\<close>, \<^verbatim>\<open>NelderMead.reflect\<close> and \<^verbatim>\<open>NelderMead.simplex_center\<close>.
  The vertices are arrays of one length, the dimension of the start; the rounding of
  their elements to single precision (\<^verbatim>\<open>array.array('f', ...)\<close>) is not modelled.
\<close>

definition scale :: "real list \<Rightarrow> real \<Rightarrow> real list" where
  "scale vertex coeff = map (\<lambda>x. coeff * x) vertex"

definition reflect :: "real list \<Rightarrow> real list \<Rightarrow> real \<Rightarrow> real list" where
  "reflect x0 xn1 alpha =
     (let diff = map (\<lambda>(a, b). a - b) (zip x0 xn1);
          xr = map (\<lambda>(a, b). a + b) (zip x0 (scale diff alpha))
      in xr)"

definition simplex_center :: "real list list \<Rightarrow> real list" where
  "simplex_center vertices =
     (let vector_sum = map sum_list (zip_star vertices)
      in map (\<lambda>x. x / real (length vertices)) vector_sum)"

text \<open>
  \<^verbatim>\<open>NelderMead.sort_vertices\<close>: \<^verbatim>\<open>sorted(enumerate(values), key=op.itemgetter(1))\<close>
  is a stable sort by value, as \<open>sort_key\<close> is; the list of values is never empty.
\<close>

definition sort_vertices :: "real list list \<Rightarrow> real list \<Rightarrow> real list list \<times> real list" where
  "sort_vertices vertices values =
     (let pairs = sort_key snd (enumerate_py values);
          sort_idx = map fst pairs; values = map snd pairs;
          vertices = map (\<lambda>x. vertices ! x) sort_idx
      in (vertices, values))"

text \<open>
  The comparison of a vertex with a number, \<^verbatim>\<open>vertices[0] < fxr < vertices[-2]\<close>.
  \<^verbatim>\<open>array.array\<close> compares with arrays only; for an array and a float Python 2
  falls back to its default order of objects of different types, in which a number
  is smaller than every object that is not a number. So an array is never less than
  a float, and a float is always less than an array.
\<close>

definition array_less_float :: "real list \<Rightarrow> real \<Rightarrow> bool" where
  "array_less_float vertex x = False"

definition float_less_array :: "real \<Rightarrow> real list \<Rightarrow> bool" where
  "float_less_array x vertex = True"

text \<open>
  The body of the loop of \<^verbatim>\<open>NelderMead._solve\<close> after the test for convergence, on
  the sorted simplex: reflect, expand, contract, reduce. \<^verbatim>\<open>vertices[-2]\<close> is only
  read when the first comparison of the chain holds.
\<close>

definition NelderMead_iteration ::
  "(real list \<Rightarrow> real) \<Rightarrow> real list list \<times> real list \<Rightarrow> real list list \<times> real list" where
  "NelderMead_iteration f simplex =
     (let (vertices, values) = simplex;
          n = length vertices;
          alpha = 1; gamma = 2; rho = - 0.5; sigma = 0.5;
          x0 = simplex_center (butlast vertices);
          xr = reflect x0 (last vertices) alpha;
          fxr = f xr
      in if array_less_float (vertices ! 0) fxr \<and> float_less_array fxr (vertices ! (n - 2)) then
           (vertices[n - 1 := xr], values[n - 1 := fxr])
         else if fxr < values ! 0 then
           (let xe = reflect x0 (last vertices) gamma; fxe = f xe
            in if fxe < fxr then (vertices[n - 1 := xe], values[n - 1 := fxe])
               else (vertices[n - 1 := xr], values[n - 1 := fxr]))
         else
           (let xc = reflect x0 (last vertices) rho; fxc = f xc
            in if fxc < last values then (vertices[n - 1 := xc], values[n - 1 := fxc])
               else
                 (let reduced = map (\<lambda>v. reflect (vertices ! 0) v sigma) (tl vertices)
                  in (vertices ! 0 # reduced, values ! 0 # map f reduced))))"

text \<open>
  The loop \<^verbatim>\<open>while niter < self.max_iter\<close>: sort, stop when the best and the worst
  value differ by at most \<open>ftol\<close>, otherwise count the iteration and transform the
  simplex.
\<close>

function NelderMead_loop ::
  "(real list \<Rightarrow> real) \<Rightarrow> real \<Rightarrow> nat \<Rightarrow> nat \<Rightarrow> real list list \<times> real list
     \<Rightarrow> real list list \<times> real list" where
  "NelderMead_loop f ftol max_iter niter simplex =
     (if niter < max_iter then
        (let sorted_simplex = sort_vertices (fst simplex) (snd simplex)
         in if \<bar>snd sorted_simplex ! 0 - last (snd sorted_simplex)\<bar> \<le> ftol then sorted_simplex
            else NelderMead_loop f ftol max_iter (niter + 1) (NelderMead_iteration f sorted_simplex))
      else simplex)"
  by pat_completeness auto
termination
  by (relation "measure (\<lambda>(f, ftol, max_iter, niter, simplex). max_iter - niter)") auto

text \<open>
  The simplex \<^verbatim>\<open>_solve\<close> starts from: the start point, and for every coordinate
  \<open>k\<close> the start point with that coordinate scaled by \<open>1 + nonzdelt\<close>, or set to
  \<open>zdelt\<close> when it is zero.
\<close>

definition NelderMead_simplex :: "(real list \<Rightarrow> real) \<Rightarrow> real list \<Rightarrow> real list list \<times> real list" where
  "NelderMead_simplex f x0 =
     (let nonzdelt = 0.05; zdelt = 0.00025;
          vertices = x0 # map (\<lambda>k. x0[k := (if x0 ! k \<noteq> 0 then (1 + nonzdelt) * x0 ! k else zdelt)])
                           [0..<length x0]
      in (vertices, map f vertices))"

text \<open>\<^verbatim>\<open>NelderMead._solve(func, x0)\<close>: the vertex of the least value after the loop.\<close>

definition NelderMead_solve :: "(real list \<Rightarrow> real) \<Rightarrow> real \<Rightarrow> nat \<Rightarrow> real list \<Rightarrow> error + real list" where
  "NelderMead_solve f ftol max_iter x0 =
     (let (vertices, values) = NelderMead_loop f ftol max_iter 1 (NelderMead_simplex f x0)
      in bind_err (py_min snd (enumerate_py values)) (\<lambda>(idx, _). Inr (vertices ! idx)))"

text \<open>
  \<^verbatim>\<open>NelderMead.__init__\<close> and \<^verbatim>\<open>NelderMead.optimize\<close>: the objective is negated when
  maximizing, and called with the coordinates in the order of the sorted names.
\<close>

record nelder_mead =
  nm_start :: "real kwargs"
  nm_ftol :: real
  nm_max_iter :: nat

definition NelderMead_init :: "real \<Rightarrow> nat option \<Rightarrow> real kwargs \<Rightarrow> nelder_mead" where
  "NelderMead_init ftol max_iter kwargs =
     \<lparr>nm_start = kwargs, nm_ftol = ftol,
      nm_max_iter = (case max_iter of None \<Rightarrow> length kwargs * 200 | Some m \<Rightarrow> m)\<rparr>"

definition NelderMead_optimize ::
  "nelder_mead \<Rightarrow> ((string \<rightharpoonup> real) \<Rightarrow> real) \<Rightarrow> bool \<Rightarrow> error + (string \<times> real) list" where
  "NelderMead_optimize self f maximize =
     (let f = (if maximize then (\<lambda>assignment. - f assignment) else f);
          sortedkeys = sort (map fst (nm_start self));
          x0 = map snd (sort_key fst (nm_start self));
          func = static_key_order sortedkeys f
      in bind_err (NelderMead_solve func (nm_ftol self) (nm_max_iter self) x0) (\<lambda>xopt.
           Inr (zip sortedkeys xopt)))"

text \<open>
  The objective of the documented example: \<open>x\<^sup>2 + y\<^sup>2\<close>, minimized from the start
  \<open>x = 1, y = 1\<close>.
\<close>

definition sum_of_squares :: "(string \<rightharpoonup> real) \<Rightarrow> real" where
  "sum_of_squares assignment =
     (case (assignment ''x'', assignment ''y'') of
        (Some x, Some y) \<Rightarrow> x * x + y * y
      | _ \<Rightarrow> 0)"

section \<open>Properties of the sizing helpers\<close>

lemma round_half_even_of_int: "round_half_even (of_int k) = k"
  by (simp add: round_half_even_def)

lemma round_half_even_err: "\<bar>of_int (round_half_even y) - y\<bar> \<le> 1 / 2"
  unfolding round_half_even_def Let_def by (auto; linarith)

lemma binary_exponent:
  assumes "x \<noteq> 0"
  shows "2 powi \<lfloor>log 2 \<bar>x\<bar>\<rfloor> \<le> \<bar>x\<bar> \<and> \<bar>x\<bar> < 2 powi (\<lfloor>log 2 \<bar>x\<bar>\<rfloor> + 1)"
proof -
  from assms have pos: "0 < \<bar>x\<bar>" by simp
  have "\<lfloor>log 2 \<bar>x\<bar>\<rfloor> = \<lfloor>log 2 \<bar>x\<bar>\<rfloor>" ..
  then have "2 powr real_of_int \<lfloor>log 2 \<bar>x\<bar>\<rfloor> \<le> \<bar>x\<bar> \<and> \<bar>x\<bar> < 2 powr real_of_int (\<lfloor>log 2 \<bar>x\<bar>\<rfloor> + 1)"
    using floor_log_eq_powr_iff [OF pos, of 2 "\<lfloor>log 2 \<bar>x\<bar>\<rfloor>"] by simp
  then show ?thesis
    using powr_real_of_int' [of 2 "\<lfloor>log 2 \<bar>x\<bar>\<rfloor>"] powr_real_of_int' [of 2 "\<lfloor>log 2 \<bar>x\<bar>\<rfloor> + 1"]
    by simp
qed

lemma round_to_double_err:
  assumes "x \<noteq> 0"
  shows "\<bar>round_to_double x - x\<bar> \<le> \<bar>x\<bar> / 2 ^ 53"
proof -
  define e where "e = \<lfloor>log 2 \<bar>x\<bar>\<rfloor>"
  define ulp :: real where "ulp = 2 powi (e - 52)"
  have ulp: "0 < ulp" by (simp add: ulp_def)
  have low: "2 powi e \<le> \<bar>x\<bar>" using binary_exponent [OF assms] by (simp add: e_def)
  have "ulp = 2 powi e / 2 ^ 52" by (simp add: ulp_def power_int_diff)
  with low have u: "ulp / 2 \<le> \<bar>x\<bar> / 2 ^ 53" by (simp add: field_simps)
  have rd: "round_to_double x = of_int (round_half_even (x / ulp)) * ulp"
    using assms by (simp add: round_to_double_def Let_def e_def ulp_def)
  have "round_to_double x - x = (of_int (round_half_even (x / ulp)) - x / ulp) * ulp"
    using ulp by (simp add: rd field_simps)
  then have "\<bar>round_to_double x - x\<bar> = \<bar>of_int (round_half_even (x / ulp)) - x / ulp\<bar> * ulp"
    using ulp by (simp add: abs_mult)
  also have "\<dots> \<le> 1 / 2 * ulp"
    using round_half_even_err [of "x / ulp"] ulp by (intro mult_right_mono) simp_all
  finally show ?thesis using u by simp
qed

lemma round_to_double_of_int:
  assumes "\<bar>k\<bar> < 2 ^ 53"
  shows "round_to_double (of_int k) = of_int k"
proof (cases "k = 0")
  case True
  then show ?thesis by (simp add: round_to_double_def)
next
  case False
  define x :: real where "x = of_int k"
  define e where "e = \<lfloor>log 2 \<bar>x\<bar>\<rfloor>"
  define ulp :: real where "ulp = 2 powi (e - 52)"
  from False have x: "x \<noteq> 0" by (simp add: x_def)
  have "2 powi e \<le> \<bar>x\<bar>" using binary_exponent [OF x] by (simp add: e_def)
  moreover have "\<bar>x\<bar> < 2 powi 53"
  proof -
    have "real_of_int \<bar>k\<bar> < real_of_int (2 ^ 53)" using assms by (simp only: of_int_less_iff)
    moreover have "(2::real) powi 53 = 2 ^ 53" using power_int_of_nat [of "2::real" 53] by simp
    ultimately show ?thesis by (simp add: x_def)
  qed
  ultimately have "(2::real) powi e < 2 powi 53" by simp
  then have e: "e < 53" by (rule power_int_le_imp_less_exp [rotated]) simp_all
  have "ulp = 1 / 2 ^ nat (52 - e)"
  proof -
    have "ulp = 2 powi (- int (nat (52 - e)))" using e by (simp add: ulp_def)
    then show ?thesis by (simp only: power_int_minus power_int_of_nat inverse_eq_divide)
  qed
  then have "x / ulp = of_int (k * 2 ^ nat (52 - e))" by (simp add: x_def)
  then have "round_half_even (x / ulp) = k * 2 ^ nat (52 - e)"
    by (simp only: round_half_even_of_int)
  then have "of_int (round_half_even (x / ulp)) * ulp = x"
    using \<open>ulp = 1 / 2 ^ nat (52 - e)\<close> by (simp add: x_def)
  then show ?thesis using x by (simp add: round_to_double_def Let_def e_def ulp_def x_def)
qed

lemma ceiling_round_to_double:
  assumes c: "0 < c" and n: "0 < n" "n < 2 ^ 53"
  shows "c * (\<lceil>round_to_double (of_int n / of_int c)\<rceil> - 1) < n \<and>
         n \<le> c * \<lceil>round_to_double (of_int n / of_int c)\<rceil>"
proof -
  define x :: real where "x = of_int n / of_int c"
  define g where "g = \<lceil>round_to_double x\<rceil>"
  from c have rc: "0 < real_of_int c" by simp
  from c n have x: "0 < x" by (simp add: x_def)
  have "real_of_int n < real_of_int (2 ^ 53)" using n by (simp only: of_int_less_iff)
  then have "x * real_of_int c < 2 ^ 53" using rc by (simp add: x_def)
  then have "x / 2 ^ 53 < 1 / real_of_int c" using rc by (simp add: field_simps)
  moreover have "\<bar>round_to_double x - x\<bar> \<le> \<bar>x\<bar> / 2 ^ 53"
    using x by (intro round_to_double_err) simp
  ultimately have err: "\<bar>round_to_double x - x\<bar> < 1 / real_of_int c" using x by simp
  have up: "round_to_double x \<le> of_int g" unfolding g_def by (rule le_of_int_ceiling)
  have lo: "of_int g - 1 < round_to_double x" unfolding g_def by linarith
  have a: "n \<le> c * g"
  proof (rule ccontr)
    assume "\<not> n \<le> c * g"
    then have "c * g + 1 \<le> n" by simp
    then have "real_of_int (c * g + 1) \<le> real_of_int n" by (simp only: of_int_le_iff)
    moreover have "(of_int g + 1 / real_of_int c) * real_of_int c = real_of_int (c * g + 1)"
      using rc by (simp add: algebra_simps)
    ultimately have "(of_int g + 1 / real_of_int c) * real_of_int c \<le> real_of_int n" by simp
    then have "of_int g + 1 / real_of_int c \<le> x"
      unfolding x_def pos_le_divide_eq [OF rc] .
    with err up show False by linarith
  qed
  have b: "c * (g - 1) < n"
  proof (rule ccontr)
    assume "\<not> c * (g - 1) < n"
    then have le: "n \<le> c * (g - 1)" by simp
    show False
    proof (cases "n = c * (g - 1)")
      case True
      then have xg: "x = of_int (g - 1)" using c by (simp add: x_def)
      have g1: "0 < g - 1" using x unfolding xg by simp
      have "1 * (g - 1) \<le> c * (g - 1)" using c g1 by (intro mult_right_mono) simp_all
      then have "g - 1 \<le> n" using True by simp
      with g1 have "\<bar>g - 1\<bar> < 2 ^ 53" using n by simp
      then have "round_to_double x = of_int (g - 1)"
        unfolding xg by (rule round_to_double_of_int)
      with lo show False by simp
    next
      case False
      with le have "n + 1 \<le> c * (g - 1)" by simp
      then have "real_of_int (n + 1) \<le> real_of_int (c * (g - 1))" by (simp only: of_int_le_iff)
      moreover have "(of_int g - 1 - 1 / real_of_int c) * real_of_int c = real_of_int (c * (g - 1)) - 1"
        using rc by (simp add: algebra_simps)
      ultimately have "real_of_int n \<le> (of_int g - 1 - 1 / real_of_int c) * real_of_int c" by simp
      then have "x \<le> of_int g - 1 - 1 / real_of_int c"
        unfolding x_def pos_divide_le_eq [OF rc] .
      with err lo show False by linarith
    qed
  qed
  from a b show ?thesis by (simp add: g_def x_def)
qed

lemma round_to_double_binade:
  assumes "0 < x" and "2 powi e \<le> x" and "x < 2 powi (e + 1)"
  shows "round_to_double x = of_int (round_half_even (x / 2 powi (e - 52))) * 2 powi (e - 52)"
proof -
  have "2 powr real_of_int e \<le> x \<and> x < 2 powr real_of_int (e + 1)"
    using assms powr_real_of_int' [of 2 e] powr_real_of_int' [of 2 "e + 1"] by simp
  then have "\<lfloor>log 2 x\<rfloor> = e" using floor_log_eq_powr_iff [of x 2 e] assms(1) by simp
  then show ?thesis using assms(1) by (simp add: round_to_double_def Let_def)
qed

lemma round_to_double_example1: "round_to_double (of_int (10 ^ 17 + 1)) = 10 ^ 17"
proof -
  have "round_to_double (of_int (10 ^ 17 + 1)) =
      of_int (round_half_even (of_int (10 ^ 17 + 1) / 2 powi (56 - 52))) * 2 powi (56 - 52)"
    by (rule round_to_double_binade) (simp_all add: power_int_def)
  then show ?thesis by (simp add: power_int_def round_half_even_def Let_def power_divide)
qed

lemma round_to_double_example2: "round_to_double 2000000000000000 = 2000000000000000"
proof -
  have "round_to_double 2000000000000000 =
      of_int (round_half_even (2000000000000000 / 2 powi (50 - 52))) * 2 powi (50 - 52)"
    by (rule round_to_double_binade) (simp_all add: power_int_def)
  then show ?thesis by (simp add: power_int_def round_half_even_def Let_def power_divide)
qed

lemma float_of_int_exact:
  assumes "\<bar>n\<bar> < 2 ^ 53"
  shows "float_of_int n = Inr (of_int n)"
proof -
  have "real_of_int \<bar>n\<bar> < real_of_int (2 ^ 53)" using assms by (simp only: of_int_less_iff)
  then have "\<bar>real_of_int n\<bar> < 2 ^ 1024" by simp
  then show ?thesis by (simp add: float_of_int_def round_to_double_of_int [OF assms])
qed

lemma ceil_div_is_ceil:
  assumes "0 < c" and "0 < n" and "n < 2 ^ 53"
  shows "\<exists>g. ceil_div n c = Inr g \<and> is_ceil n c g"
proof -
  from assms have "\<bar>n\<bar> < 2 ^ 53" by simp
  then have "ceil_div n c = Inr \<lceil>round_to_double (of_int n / of_int c)\<rceil>"
    by (simp add: ceil_div_def float_of_int_exact)
  then show ?thesis using ceiling_round_to_double [OF assms] by (simp add: is_ceil_def)
qed

lemma ceil_div_example: "ceil_div (10 ^ 17 + 1) 50 = Inr 2000000000000000"
proof -
  have "float_of_int (10 ^ 17 + 1) = Inr (10 ^ 17)"
    unfolding float_of_int_def round_to_double_example1 by simp
  then show ?thesis by (simp add: ceil_div_def round_to_double_example2)
qed

text \<open>
  Claim C7, for budgets below \<open>2^53\<close>. \<^verbatim>\<open>ParticleSwarm.suggest_from_box\<close> and
  \<^verbatim>\<open>CSA.suggest_from_box\<close> return the given keyword arguments with two entries
  stored: 50 particles (processes) and \<open>ceil(num_evals/50)\<close> generations when
  \<open>num_evals > 200\<close>; 10 and \<open>ceil(num_evals/10)\<close> when \<open>10 < num_evals \<le> 200\<close>;
  otherwise \<open>num_evals\<close> particles (processes) and one generation. Below \<open>2^53\<close> the
  conversion of the budget to a float is exact and the rounding of the quotient does
  not reach the next integer.
\<close>

theorem suggest_from_box_sizes:
  assumes "num_evals < 2 ^ 53"
  shows "(\<exists>d. ParticleSwarm_suggest_from_box num_evals kwargs = Inr d \<and>
              sized ''num_particles'' num_evals kwargs d) \<and>
         (\<exists>d. CSA_suggest_from_box num_evals kwargs = Inr d \<and>
              sized ''num_processes'' num_evals kwargs d)"
proof (cases "num_evals > 10")
  case False
  then show ?thesis
    by (simp add: sized_def ParticleSwarm_suggest_from_box_def CSA_suggest_from_box_def)
next
  case True
  then have pos: "0 < num_evals" by simp
  obtain g where g: "ceil_div num_evals 50 = Inr g" "is_ceil num_evals 50 g"
    using ceil_div_is_ceil [OF _ pos assms, of 50] by auto
  obtain h where h: "ceil_div num_evals 10 = Inr h" "is_ceil num_evals 10 h"
    using ceil_div_is_ceil [OF _ pos assms, of 10] by auto
  show ?thesis
    using True g h
    by (auto simp add: sized_def ParticleSwarm_suggest_from_box_def CSA_suggest_from_box_def)
qed

theorem suggest_from_box_sizes_witness:
  "(201::int) < 2 ^ 53 \<and>
   ParticleSwarm_suggest_from_box 201 Map.empty =
     Inr [''num_particles'' \<mapsto> Count 50, ''num_generations'' \<mapsto> Count 5] \<and>
   CSA_suggest_from_box 201 Map.empty =
     Inr [''num_processes'' \<mapsto> Count 50, ''num_generations'' \<mapsto> Count 5]"
proof -
  have five: "is_ceil 201 50 g \<Longrightarrow> g = 5" for g unfolding is_ceil_def by presburger
  show ?thesis
    using suggest_from_box_sizes [of 201 Map.empty] five
    by (auto simp add: sized_def)
qed

text \<open>
  Beyond \<open>2^53\<close> the claim fails: \<^verbatim>\<open>float(10**17 + 1)\<close> is \<open>10^17\<close>, whose fiftieth part
  is the integer \<open>2 * 10^15\<close>, one less than \<open>ceil((10^17 + 1)/50)\<close>.
\<close>

theorem suggest_from_box_large_budget:
  "ParticleSwarm_suggest_from_box (10 ^ 17 + 1) Map.empty =
     Inr [''num_particles'' \<mapsto> Count 50, ''num_generations'' \<mapsto> Count 2000000000000000] \<and>
   CSA_suggest_from_box (10 ^ 17 + 1) Map.empty =
     Inr [''num_processes'' \<mapsto> Count 50, ''num_generations'' \<mapsto> Count 2000000000000000] \<and>
   \<not> is_ceil (10 ^ 17 + 1) 50 2000000000000000 \<and>
   is_ceil (10 ^ 17 + 1) 50 2000000000000001 \<and>
   \<not> sized ''num_particles'' (10 ^ 17 + 1) Map.empty
       [''num_particles'' \<mapsto> Count 50, ''num_generations'' \<mapsto> Count 2000000000000000]"
proof -
  have a: "ParticleSwarm_suggest_from_box (10 ^ 17 + 1) Map.empty =
      Inr [''num_particles'' \<mapsto> Count 50, ''num_generations'' \<mapsto> Count 2000000000000000]"
    unfolding ParticleSwarm_suggest_from_box_def ceil_div_example by simp
  have b: "CSA_suggest_from_box (10 ^ 17 + 1) Map.empty =
      Inr [''num_processes'' \<mapsto> Count 50, ''num_generations'' \<mapsto> Count 2000000000000000]"
    unfolding CSA_suggest_from_box_def ceil_div_example by simp
  have c: "\<not> is_ceil (10 ^ 17 + 1) 50 2000000000000000" by (simp add: is_ceil_def)
  have d: "is_ceil (10 ^ 17 + 1) 50 2000000000000001" by (simp add: is_ceil_def)
  have e: "\<not> sized ''num_particles'' (10 ^ 17 + 1) Map.empty
       [''num_particles'' \<mapsto> Count 50, ''num_generations'' \<mapsto> Count 2000000000000000]"
  proof
    assume "sized ''num_particles'' (10 ^ 17 + 1) Map.empty
       [''num_particles'' \<mapsto> Count 50, ''num_generations'' \<mapsto> Count 2000000000000000]"
    then obtain p g where eq: "[''num_particles'' \<mapsto> Count 50, ''num_generations'' \<mapsto> Count 2000000000000000] =
        [''num_particles'' \<mapsto> Count p, ''num_generations'' \<mapsto> Count g]"
      and g: "is_ceil (10 ^ 17 + 1) 50 g"
      by (auto simp add: sized_def)
    from eq have "g = 2000000000000000"
      by (metis fun_upd_same kwarg.inject(2) option.inject)
    with g c show False by simp
  qed
  from a b c d e show ?thesis by simp
qed

text \<open>
  Claim C9. For every \<open>num_evals\<close> and every keyword configuration,
  \<^verbatim>\<open>GridSearch.suggest_from_box\<close> and \<^verbatim>\<open>NelderMead.suggest_from_seed\<close> return the
  keyword arguments unchanged: the requested budget has no effect on the result.
\<close>

theorem suggest_ignores_budget:
  "GridSearch_suggest_from_box num_evals kwargs = kwargs \<and>
   NelderMead_suggest_from_seed num_evals seed = seed \<and>
   GridSearch_suggest_from_box num_evals kwargs = GridSearch_suggest_from_box num_evals' kwargs \<and>
   NelderMead_suggest_from_seed num_evals seed = NelderMead_suggest_from_seed num_evals' seed"
  by (simp add: GridSearch_suggest_from_box_def NelderMead_suggest_from_seed_def)

section \<open>Properties of the constructors\<close>



lemma namedtuple_Inr: "namedtuple typename field_names = Inr ttype \<Longrightarrow> ttype = field_names"
  by (auto simp: namedtuple_def split: option.splits)





section \<open>The extremum chosen by max and min\<close>

lemma enumerate_py_snoc: "enumerate_py (xs @ [x]) = enumerate_py xs @ [(length xs, x)]"
  by (simp add: enumerate_py_def)

lemma py_max_snoc:
  "xs \<noteq> [] \<Longrightarrow> py_max key (xs @ [x]) =
     bind_err (py_max key xs) (\<lambda>best. Inr (if key x > key best then x else best))"
  by (cases xs) (simp_all add: py_max_def bind_err_def)

lemma py_min_snoc:
  "xs \<noteq> [] \<Longrightarrow> py_min key (xs @ [x]) =
     bind_err (py_min key xs) (\<lambda>best. Inr (if key x < key best then x else best))"
  by (cases xs) (simp_all add: py_min_def bind_err_def)

lemma enumerate_py_empty: "(enumerate_py xs = []) = (xs = [])"
  by (simp add: enumerate_py_def)

lemma py_max_enumerate:
  "scores \<noteq> [] \<Longrightarrow>
     \<exists>i. py_max snd (enumerate_py scores) = Inr (i, scores ! i) \<and> first_best True scores i"
proof (induction scores rule: rev_nonempty_induct)
  case (single x)
  show ?case by (simp add: py_max_def enumerate_py_def first_best_def)
next
  case (snoc x xs)
  then obtain i where i: "py_max snd (enumerate_py xs) = Inr (i, xs ! i)"
    and fb: "first_best True xs i" by blast
  from snoc.hyps have ne: "enumerate_py xs \<noteq> []" by (simp add: enumerate_py_empty)
  from fb have il: "i < length xs" by (simp add: first_best_def)
  show ?case
  proof (cases "x > xs ! i")
    case True
    have "py_max snd (enumerate_py (xs @ [x])) = Inr (length xs, x)"
      using True i by (simp add: enumerate_py_snoc py_max_snoc [OF ne] bind_err_def)
    moreover have "first_best True (xs @ [x]) (length xs)"
      using fb True unfolding first_best_def
      by (auto simp: nth_append less_Suc_eq)
    ultimately show ?thesis by auto
  next
    case False
    have "py_max snd (enumerate_py (xs @ [x])) = Inr (i, xs ! i)"
      using False i by (simp add: enumerate_py_snoc py_max_snoc [OF ne] bind_err_def)
    moreover have "first_best True (xs @ [x]) i"
      using fb False unfolding first_best_def
      by (auto simp: nth_append less_Suc_eq)
    ultimately show ?thesis using il by (auto simp: nth_append)
  qed
qed


lemma py_min_enumerate:
  "scores \<noteq> [] \<Longrightarrow>
     \<exists>i. py_min snd (enumerate_py scores) = Inr (i, scores ! i) \<and> first_best False scores i"
proof (induction scores rule: rev_nonempty_induct)
  case (single x)
  show ?case by (simp add: py_min_def enumerate_py_def first_best_def)
next
  case (snoc x xs)
  then obtain i where i: "py_min snd (enumerate_py xs) = Inr (i, xs ! i)"
    and fb: "first_best False xs i" by blast
  from snoc.hyps have ne: "enumerate_py xs \<noteq> []" by (simp add: enumerate_py_empty)
  from fb have il: "i < length xs" by (simp add: first_best_def)
  show ?case
  proof (cases "x < xs ! i")
    case True
    have "py_min snd (enumerate_py (xs @ [x])) = Inr (length xs, x)"
      using True i by (simp add: enumerate_py_snoc py_min_snoc [OF ne] bind_err_def)
    moreover have "first_best False (xs @ [x]) (length xs)"
      using fb True unfolding first_best_def
      by (auto simp: nth_append less_Suc_eq)
    ultimately show ?thesis by auto
  next
    case False
    have "py_min snd (enumerate_py (xs @ [x])) = Inr (i, xs ! i)"
      using False i by (simp add: enumerate_py_snoc py_min_snoc [OF ne] bind_err_def)
    moreover have "first_best False (xs @ [x]) i"
      using fb False unfolding first_best_def
      by (auto simp: nth_append less_Suc_eq)
    ultimately show ?thesis using il by (auto simp: nth_append)
  qed
qed

lemma best_enumerate:
  "scores \<noteq> [] \<Longrightarrow>
     \<exists>i. (if maximize then py_max else py_min) snd (enumerate_py scores) = Inr (i, scores ! i) \<and>
         first_best maximize scores i"
  using py_max_enumerate [of scores] py_min_enumerate [of scores] by (cases maximize) simp_all

section \<open>Columns and rows\<close>

lemma fold_min_length:
  "\<forall>xs\<in>set xss. length xs = n \<Longrightarrow> fold (\<lambda>ys m. min (length ys) m) xss n = n"
  by (induction xss) simp_all

lemma min_length_rect: "xss \<noteq> [] \<Longrightarrow> \<forall>xs\<in>set xss. length xs = n \<Longrightarrow> min_length xss = n"
  by (cases xss) (simp_all add: min_length_def fold_min_length)

lemma zip_star_rect:
  "xss \<noteq> [] \<Longrightarrow> \<forall>xs\<in>set xss. length xs = n \<Longrightarrow>
     zip_star xss = map (\<lambda>i. map (\<lambda>xs. xs ! i) xss) [0..<n]"
  using min_length_rect [of xss n] by (simp add: zip_star_def)


section \<open>Properties of GridSearch\<close>




section \<open>Properties of RandomSearch\<close>

lemma map_insort_key: "map f (insort_key f x xs) = insort (f x) (map f xs)"
  by (induction xs) simp_all

lemma map_sort_key: "map f (sort_key f xs) = sort (map f xs)"
  by (induction xs) (simp_all add: map_insort_key)


lemma to_float_Finite: "float_range r \<Longrightarrow> to_float r = Finite r"
  unfolding float_range_def to_float_def by auto

lemma uniform_float_within:
  assumes ab: "a \<le> b" and u0: "0 \<le> u" and u1: "u < 1"
    and fa: "float_range a" and fb: "float_range b" and fw: "float_range (b - a)"
  shows "\<exists>r. uniform_float (Finite a) (Finite b) u = Finite r \<and> a \<le> r \<and> r \<le> b"
proof -
  from ab u0 have lo: "0 \<le> (b - a) * u" by simp
  from ab u1 have hi: "(b - a) * u \<le> (b - a) * 1" by (intro mult_left_mono) simp_all
  have w: "fsub (Finite b) (Finite a) = Finite (b - a)"
    using to_float_Finite [OF fw] by (simp add: fsub_def)
  have "float_range ((b - a) * u)" using lo hi fw unfolding float_range_def by simp
  then have p: "to_float ((b - a) * u) = Finite ((b - a) * u)" by (rule to_float_Finite)
  have "float_range (a + (b - a) * u)" using lo hi fa fb unfolding float_range_def by simp
  then have s: "to_float (a + (b - a) * u) = Finite (a + (b - a) * u)" by (rule to_float_Finite)
  have "uniform_float (Finite a) (Finite b) u = Finite (a + (b - a) * u)"
    by (simp add: uniform_float_def w p s)
  with lo hi show ?thesis by simp
qed

lemma length_generate_rand_args: "length (generate_rand_args rnd i len items) = length items"
  by (induction rnd i len items rule: generate_rand_args.induct) simp_all

lemma generate_rand_args_rect: "\<forall>c\<in>set (generate_rand_args rnd i len items). length c = len"
  by (induction rnd i len items rule: generate_rand_args.induct) simp_all

lemma generate_rand_args_within:
  "unit_interval rnd \<Longrightarrow> bounds_asserted items \<Longrightarrow> float_box items \<Longrightarrow>
     list_all2 (\<lambda>(k, b) col. \<forall>v\<in>set col. fle (Finite (b ! 0)) v \<and> fle v (Finite (b ! 1)))
       items (generate_rand_args rnd i len items)"
proof (induction rnd i len items rule: generate_rand_args.induct)
  case (1 rnd i len)
  show ?case by simp
next
  case (2 rnd i len k bounds rest)
  from "2.prems" have b: "bounds ! 0 \<le> bounds ! 1" and r: "bounds_asserted rest"
    by (simp_all add: bounds_asserted_def)
  from "2.prems" have fr: "float_range (bounds ! 0)" "float_range (bounds ! 1)"
      "float_range (bounds ! 1 - bounds ! 0)" and fb: "float_box rest"
    by (simp_all add: float_box_def)
  from "2.prems" have u: "\<And>n. 0 \<le> rnd n" "\<And>n. rnd n < 1" by (simp_all add: unit_interval_def)
  have "fle (Finite (bounds ! 0)) (uniform_float (Finite (bounds ! 0)) (Finite (bounds ! 1)) (rnd (i + j))) \<and>
        fle (uniform_float (Finite (bounds ! 0)) (Finite (bounds ! 1)) (rnd (i + j))) (Finite (bounds ! 1))"
    for j
    using uniform_float_within [OF b u(1) u(2) fr, of "i + j"] by (auto simp add: fle_def)
  then show ?case using "2.IH" [OF "2.prems"(1) r fb] by auto
qed

lemma generate_rand_args_no_evals: "zip_star (generate_rand_args rnd i 0 items) = []"
proof (cases "generate_rand_args rnd i 0 items = []")
  case True
  then show ?thesis by (simp add: zip_star_def min_length_def)
next
  case False
  from min_length_rect [OF False generate_rand_args_rect]
  show ?thesis by (simp add: zip_star_def)
qed

text \<open>
  Claim C10. With \<open>num_evals = 0\<close>, \<^verbatim>\<open>RandomSearch.optimize\<close> returns no result, for
  every bounds configuration, objective function and random source: the batch is
  empty and \<^verbatim>\<open>max\<close> (\<^verbatim>\<open>min\<close>) of the empty score sequence raises ValueError. (With
  no parameter at all the call of the default \<^verbatim>\<open>map\<close> raises before that.)
\<close>

theorem RandomSearch_optimize_no_evals:
  "rs_num_evals self = 0 \<Longrightarrow>
     (\<exists>e. RandomSearch_optimize self rnd f maximize = Inl e) \<and>
     (rs_bounds self \<noteq> [] \<longrightarrow> RandomSearch_optimize self rnd f maximize = Inl ValueError)"
proof -
  assume z: "rs_num_evals self = 0"
  let ?tuples = "generate_rand_args rnd 0 0 (sort_key fst (rs_bounds self))"
  have e: "zip_star ?tuples = []" by (rule generate_rand_args_no_evals)
  have a: "RandomSearch_optimize self rnd f maximize =
           (if ?tuples = [] then Inl TypeError else Inl ValueError)"
    unfolding RandomSearch_optimize_def Let_def z
    by (simp add: pmap_def bind_err_def e enumerate_py_def py_max_def py_min_def)
  have "length ?tuples = length (rs_bounds self)" by (simp add: length_generate_rand_args)
  then have b: "rs_bounds self \<noteq> [] \<longrightarrow> ?tuples \<noteq> []" by auto
  from a b show ?thesis by auto
qed

theorem RandomSearch_optimize_no_evals_witness:
  "rs_num_evals \<lparr>rs_bounds = [(''x'', [0, 1])], rs_num_evals = 0\<rparr> = 0 \<and>
   RandomSearch_init 0 [(''x'', [0, 1])] = Inr \<lparr>rs_bounds = [(''x'', [0, 1])], rs_num_evals = 0\<rparr> \<and>
   RandomSearch_optimize \<lparr>rs_bounds = [(''x'', [0, 1])], rs_num_evals = 0\<rparr>
      (\<lambda>n. 0) (\<lambda>m. 0) True = Inl ValueError"
  using RandomSearch_optimize_no_evals
    [of "\<lparr>rs_bounds = [(''x'', [0, 1])], rs_num_evals = 0\<rparr>" "\<lambda>n. 0" "\<lambda>m. 0" True]
  by (simp add: RandomSearch_init_def bounds_asserted_def)


lemma RandomSearch_result_within:
  assumes asserted: "bounds_asserted kwargs" and rnd: "unit_interval rnd"
    and d: "distinct (map fst kwargs)" and i: "i < len" and fb: "float_box kwargs"
  shows "within_box kwargs
           (zip (sort (map fst kwargs))
              (map (\<lambda>c. c ! i) (generate_rand_args rnd 0 len (sort_key fst kwargs))))"
proof -
  let ?items = "sort_key fst kwargs"
  let ?tuples = "generate_rand_args rnd 0 len ?items"
  let ?vals = "map (\<lambda>c. c ! i) ?tuples"
  have keys: "sort (map fst kwargs) = map fst ?items" by (simp add: map_sort_key)
  have len: "length ?vals = length ?items" by (simp add: length_generate_rand_args)
  have a: "bounds_asserted ?items" using asserted by (simp add: bounds_asserted_def list_all_iff)
  have b: "float_box ?items" using fb by (simp add: float_box_def list_all_iff)
  from generate_rand_args_within [OF rnd a b]
  have all2: "list_all2 (\<lambda>(k, b) col. \<forall>v\<in>set col. fle (Finite (b ! 0)) v \<and> fle v (Finite (b ! 1)))
      ?items ?tuples" .
  have fst_eq: "map fst (zip (map fst ?items) ?vals) = map fst ?items"
    using len by (simp add: map_fst_zip)
  have "fle (Finite (b ! 0)) v \<and> fle v (Finite (b ! 1))"
    if kb: "(k, b) \<in> set kwargs" and kv: "(k, v) \<in> set (zip (map fst ?items) ?vals)" for k b v
  proof -
    from kv obtain j where j: "j < length ?items" and kj: "fst (?items ! j) = k"
      and vj: "?vals ! j = v"
      using len by (auto simp: in_set_zip)
    have "?items ! j \<in> set kwargs" using j by (metis nth_mem set_sort)
    then have "(k, snd (?items ! j)) \<in> set kwargs" using kj by (metis prod.collapse)
    with d kb have b: "snd (?items ! j) = b" by (metis eq_key_imp_eq_value)
    have lt: "length (?tuples ! j) = len"
      using generate_rand_args_rect [of rnd 0 len ?items] j
      by (simp add: length_generate_rand_args)
    from list_all2_nthD [OF all2 j]
    have "\<forall>v\<in>set (?tuples ! j).
        fle (Finite (snd (?items ! j) ! 0)) v \<and> fle v (Finite (snd (?items ! j) ! 1))"
      by (simp add: case_prod_beta)
    then have "\<forall>v\<in>set (?tuples ! j). fle (Finite (b ! 0)) v \<and> fle v (Finite (b ! 1))"
      unfolding b .
    moreover have "v \<in> set (?tuples ! j)"
      using vj j i lt by (auto simp: length_generate_rand_args)
    ultimately show ?thesis by blast
  qed
  then show ?thesis unfolding within_box_def keys using fst_eq by blast
qed

text \<open>
  Claim C6, for a box in the float range. For bounds accepted by the constructor
  (every bound a pair with \<open>lower \<le> upper\<close>) that are finite floats with no width
  \<open>upper - lower\<close> beyond the float range, and a random source with values in
  \<open>[0, 1)\<close>, every assignment returned by \<^verbatim>\<open>RandomSearch.optimize\<close> gives every
  parameter a value inside its \<open>[lower, upper]\<close> interval; with \<open>num_evals \<ge> 1\<close> and
  at least one parameter an assignment is returned.
\<close>

theorem RandomSearch_optimize_within_box:
  assumes init: "RandomSearch_init num_evals kwargs = Inr self"
    and rnd: "unit_interval rnd"
    and d: "distinct (map fst kwargs)"
    and fb: "float_box kwargs"
  shows "(1 \<le> num_evals \<and> kwargs \<noteq> [] \<longrightarrow>
            (\<exists>res. RandomSearch_optimize self rnd f maximize = Inr res)) \<and>
         (\<forall>res. RandomSearch_optimize self rnd f maximize = Inr res \<longrightarrow> within_box kwargs res)"
proof -
  from init have asserted: "bounds_asserted kwargs"
    and self: "self = \<lparr>rs_bounds = kwargs, rs_num_evals = num_evals\<rparr>"
    by (auto simp: RandomSearch_init_def split: if_splits)
  let ?items = "sort_key fst kwargs"
  let ?keys = "sort (map fst kwargs)"
  let ?len = "nat num_evals"
  let ?tuples = "generate_rand_args rnd 0 ?len ?items"
  let ?scores = "map (static_key_order ?keys f) (zip_star ?tuples)"
  have opt: "RandomSearch_optimize self rnd f maximize =
      bind_err (pmap (static_key_order ?keys f) ?tuples) (\<lambda>scores.
      bind_err ((if maximize then py_max else py_min) snd (enumerate_py scores)) (\<lambda>(best_idx, _).
        Inr (zip ?keys (zip_star ?tuples ! best_idx))))"
    by (simp add: RandomSearch_optimize_def self Let_def)
  show ?thesis
  proof (cases "?tuples = [] \<or> ?len = 0")
    case True
    have e: "zip_star (generate_rand_args rnd 0 0 ?items) = []" by (rule generate_rand_args_no_evals)
    from True have err: "\<exists>e. RandomSearch_optimize self rnd f maximize = Inl e"
      unfolding opt using e
      by (auto simp: pmap_def bind_err_def enumerate_py_def py_max_def py_min_def)
    have "length ?tuples = length kwargs" by (simp add: length_generate_rand_args)
    with True have "\<not> (1 \<le> num_evals \<and> kwargs \<noteq> [])" by auto
    with err show ?thesis by auto
  next
    case False
    then have ne: "?tuples \<noteq> []" and pos: "0 < ?len" by auto
    have rows: "zip_star ?tuples = map (\<lambda>i. map (\<lambda>c. c ! i) ?tuples) [0..<?len]"
      using ne generate_rand_args_rect by (rule zip_star_rect)
    from pos have sne: "?scores \<noteq> []" by (simp add: rows)
    from best_enumerate [OF sne, of maximize] obtain i where
      i: "(if maximize then py_max else py_min) snd (enumerate_py ?scores) = Inr (i, ?scores ! i)"
      and fb': "first_best maximize ?scores i" by blast
    from fb' have il: "i < ?len" by (simp add: first_best_def rows)
    have res: "RandomSearch_optimize self rnd f maximize =
                 Inr (zip ?keys (map (\<lambda>c. c ! i) ?tuples))"
      unfolding opt using ne i il by (simp add: pmap_def bind_err_def rows)
    from RandomSearch_result_within [OF asserted rnd d il fb]
    show ?thesis unfolding res by simp
  qed
qed

theorem RandomSearch_optimize_within_box_witness:
  "RandomSearch_init 2 [(''x'', [0, 4])] = Inr \<lparr>rs_bounds = [(''x'', [0, 4])], rs_num_evals = 2\<rparr> \<and>
   unit_interval (\<lambda>n. 1 / 2) \<and> distinct (map fst [(''x'', [0::real, 4])]) \<and>
   float_box [(''x'', [0, 4])] \<and>
   (\<exists>res. RandomSearch_optimize \<lparr>rs_bounds = [(''x'', [0, 4])], rs_num_evals = 2\<rparr>
             (\<lambda>n. 1 / 2) (\<lambda>m. 0) True = Inr res \<and>
          within_box [(''x'', [0, 4])] res)"
proof -
  let ?self = "\<lparr>rs_bounds = [(''x'', [0, 4])], rs_num_evals = 2\<rparr>"
  have h1: "RandomSearch_init 2 [(''x'', [0, 4])] = Inr ?self"
    by (simp add: RandomSearch_init_def bounds_asserted_def)
  have h2: "unit_interval (\<lambda>n. 1 / 2)" by (simp add: unit_interval_def)
  have h3: "distinct (map fst [(''x'', [0::real, 4])])" by simp
  have h4: "float_box [(''x'', [0, 4])]"
    by (simp add: float_box_def float_range_def float_limit_def)
  from RandomSearch_optimize_within_box [OF h1 h2 h3 h4, of "\<lambda>m. 0" True]
  have "\<exists>res. RandomSearch_optimize ?self (\<lambda>n. 1 / 2) (\<lambda>m. 0) True = Inr res \<and>
          within_box [(''x'', [0, 4])] res"
    by auto
  with h1 h2 h3 h4 show ?thesis by blast
qed

text \<open>
  Without the restriction the claim fails. The box \<open>[-1e308, 1e308]\<close> passes the
  constructor's assertion, its width overflows to infinity, and the value drawn and
  returned for \<open>x\<close> is infinite.
\<close>

theorem RandomSearch_optimize_overflow:
  "RandomSearch_init 1 [(''x'', [- (10 ^ 308), 10 ^ 308])] =
     Inr \<lparr>rs_bounds = [(''x'', [- (10 ^ 308), 10 ^ 308])], rs_num_evals = 1\<rparr> \<and>
   unit_interval (\<lambda>n. 1 / 2) \<and>
   RandomSearch_optimize \<lparr>rs_bounds = [(''x'', [- (10 ^ 308), 10 ^ 308])], rs_num_evals = 1\<rparr>
     (\<lambda>n. 1 / 2) (\<lambda>m. 0) True = Inr [(''x'', PosInf)] \<and>
   \<not> within_box [(''x'', [- (10 ^ 308), 10 ^ 308])] [(''x'', PosInf)]"
proof -
  have a: "RandomSearch_init 1 [(''x'', [- (10 ^ 308), 10 ^ 308])] =
     Inr \<lparr>rs_bounds = [(''x'', [- (10 ^ 308), 10 ^ 308])], rs_num_evals = 1\<rparr>"
    by (simp add: RandomSearch_init_def bounds_asserted_def)
  have b: "unit_interval (\<lambda>n. 1 / 2)" by (simp add: unit_interval_def)
  have c: "RandomSearch_optimize \<lparr>rs_bounds = [(''x'', [- (10 ^ 308), 10 ^ 308])], rs_num_evals = 1\<rparr>
     (\<lambda>n. 1 / 2) (\<lambda>m. 0) True = Inr [(''x'', PosInf)]"
    by (simp add: RandomSearch_optimize_def pmap_def zip_star_def min_length_def
        static_key_order_def enumerate_py_def py_max_def bind_err_def
        uniform_float_def fsub_def to_float_def float_limit_def)
  have d: "\<not> within_box [(''x'', [- (10 ^ 308), 10 ^ 308])] [(''x'', PosInf)]"
    by (simp add: within_box_def fle_def)
  from a b c d show ?thesis by simp
qed

section \<open>Properties of the monadic loops\<close>

lemma bind_err_Inr: "bind_err m k = Inr v \<longleftrightarrow> (\<exists>u. m = Inr u \<and> k u = Inr v)"
  by (cases m) (simp_all add: bind_err_def)

lemma bind_err_simps: "bind_err (Inr u) k = k u" "bind_err (Inl e) k = Inl e"
  by (simp_all add: bind_err_def)

lemma mapM_Inr:
  "mapM g as = Inr bs \<Longrightarrow> length bs = length as \<and> (\<forall>j<length as. g (as ! j) = Inr (bs ! j))"
proof (induction as arbitrary: bs)
  case Nil
  then show ?case by simp
next
  case (Cons a as)
  from Cons.prems obtain b bs' where b: "g a = Inr b" and bs': "mapM g as = Inr bs'"
    and bs: "bs = b # bs'"
    by (auto simp: bind_err_Inr)
  from Cons.IH [OF bs'] show ?case using b bs by (auto simp: nth_Cons split: nat.splits)
qed

lemma mapM_total: "(\<forall>a\<in>set as. \<exists>b. g a = Inr b) \<Longrightarrow> \<exists>bs. mapM g as = Inr bs"
  by (induction as) (auto simp: bind_err_simps)

lemma mapM_rng_Inr:
  assumes "\<And>i a b i'. a \<in> set as \<Longrightarrow> step i a = Inr (b, i') \<Longrightarrow> i' = i + c"
    and "mapM_rng step i as = Inr (bs, i'')"
  shows "length bs = length as \<and> i'' = i + c * length as \<and>
         (\<forall>j<length as. step (i + c * j) (as ! j) = Inr (bs ! j, i + c * j + c))"
  using assms
proof (induction as arbitrary: i bs)
  case Nil
  then show ?case by simp
next
  case (Cons a as)
  from Cons.prems(2) obtain b i' bs' where b: "step i a = Inr (b, i')"
    and bs': "mapM_rng step i' as = Inr (bs', i'')" and bs: "bs = b # bs'"
    by (auto simp: bind_err_Inr)
  from Cons.prems(1) [OF _ b] have i': "i' = i + c" by simp
  have "\<And>i a b i'. a \<in> set as \<Longrightarrow> step i a = Inr (b, i') \<Longrightarrow> i' = i + c"
    using Cons.prems(1) by (meson list.set_intros(2))
  from Cons.IH [OF this bs']
  have ih: "length bs' = length as" "i'' = i' + c * length as"
    "\<forall>j<length as. step (i' + c * j) (as ! j) = Inr (bs' ! j, i' + c * j + c)" by simp_all
  have "step (i + c * j) ((a # as) ! j) = Inr (bs ! j, i + c * j + c)" if "j < length (a # as)" for j
  proof (cases j)
    case 0
    then show ?thesis using b i' bs by simp
  next
    case (Suc j')
    with that have "j' < length as" by simp
    with ih(3) have "step (i' + c * j') (as ! j') = Inr (bs' ! j', i' + c * j' + c)" by simp
    then show ?thesis using Suc bs i' by (simp add: algebra_simps)
  qed
  then show ?case using ih(1,2) bs i' by (simp add: algebra_simps)
qed

lemma mapM_rng_total:
  "(\<forall>i. \<forall>a\<in>set as. \<exists>b i'. step i a = Inr (b, i')) \<Longrightarrow> \<exists>bs i''. mapM_rng step i as = Inr (bs, i'')"
proof (induction as arbitrary: i)
  case Nil
  show ?case by simp
next
  case (Cons a as)
  from Cons.prems obtain b i' where b: "step i a = Inr (b, i')" by fastforce
  from Cons.prems have "\<forall>i. \<forall>a\<in>set as. \<exists>b i'. step i a = Inr (b, i')" by simp
  from Cons.IH [OF this, of i'] obtain bs i'' where "mapM_rng step i' as = Inr (bs, i'')" by blast
  with b show ?case by (simp add: bind_err_simps)
qed

section \<open>Properties of coupled simulated annealing\<close>




lemma py_min_empty: "py_min key [] = Inl ValueError" and py_max_empty: "py_max key [] = Inl ValueError"
  by (simp_all add: py_min_def py_max_def)


lemma SA_generate_Inr:
  "SA_generate solver rnd Tk i p = Inr (p', i') \<longleftrightarrow>
     length (sa_x p) = csa_num_dimensions solver \<and>
     p' = p\<lparr>sa_y := Some (map (\<lambda>(a, b). a + b) (zip (sa_x p) (fst (CSA_g solver rnd i Tk))))\<rparr> \<and>
     i' = i + csa_num_dimensions solver"
  by (auto simp: SA_generate_def CSA_g_def Let_def)

lemma CSA_costs_Inr:
  "CSA_costs self f ps = Inr cs \<Longrightarrow>
     length cs = length ps \<and>
     (\<forall>j<length ps. \<exists>y. sa_y (ps ! j) = Some y \<and> cs ! j = evaluate (csa_bounds self) f y)"
proof -
  assume a: "CSA_costs self f ps = Inr cs"
  from mapM_Inr [OF a [unfolded CSA_costs_def]]
  show ?thesis by (auto split: option.splits)
qed

lemma foldl_plus_sum_list: "foldl (+) (a::real) xs = a + sum_list xs"
  by (induction xs arbitrary: a) simp_all

lemma CSA_gamma_Inr:
  assumes "CSA_gamma self maximize k ps = Inr gamma"
  shows "ps \<noteq> [] \<and> CSA_Tacc self k \<noteq> 0 \<and>
         (\<exists>costs. map sa_cost ps = map Some costs \<and> gamma = coupling_term self maximize k costs)"
proof -
  let ?g = "\<lambda>proc. case sa_cost proc of None \<Rightarrow> Inl TypeError
                  | Some cost \<Rightarrow> CSA_exp self cost (CSA_mult maximize) k"
  from assms obtain exps where m: "mapM ?g ps = Inr exps"
    and r: "(case exps of [] \<Rightarrow> Inl TypeError | e # es \<Rightarrow> Inr (foldl (+) e es)) = Inr gamma"
    unfolding CSA_gamma_def bind_err_Inr by blast
  from mapM_Inr [OF m] have len: "length exps = length ps"
    and each: "\<forall>j<length ps. ?g (ps ! j) = Inr (exps ! j)" by simp_all
  from r have ne: "exps \<noteq> []" and g: "gamma = sum_list exps"
    by (auto simp: foldl_plus_sum_list split: list.splits)
  from ne len have pne: "ps \<noteq> []" by auto
  have ej: "\<exists>c. sa_cost (ps ! j) = Some c \<and> CSA_Tacc self k \<noteq> 0 \<and>
              exps ! j = exp (- c * CSA_mult maximize / CSA_Tacc self k)" if "j < length ps" for j
  proof -
    from each that have gj: "?g (ps ! j) = Inr (exps ! j)" by blast
    show ?thesis
    proof (cases "sa_cost (ps ! j)")
      case None
      with gj show ?thesis by simp
    next
      case (Some c)
      with gj show ?thesis by (auto simp: CSA_exp_def split: if_splits)
    qed
  qed
  from pne ej [of 0] have t: "CSA_Tacc self k \<noteq> 0" by auto
  let ?costs = "map (\<lambda>p. the (sa_cost p)) ps"
  have sc: "sa_cost (ps ! j) = Some (the (sa_cost (ps ! j)))" if "j < length ps" for j
    using ej [OF that] by auto
  have c1: "map sa_cost ps = map Some ?costs"
    by (rule nth_equalityI) (use sc in simp_all)
  have ex: "exps ! j = exp (- the (sa_cost (ps ! j)) * CSA_mult maximize / CSA_Tacc self k)"
    if "j < length ps" for j
    using ej [OF that] by auto
  have "exps = map (\<lambda>cost. exp (- cost * CSA_mult maximize / CSA_Tacc self k)) ?costs"
    by (rule nth_equalityI) (use ex len in simp_all)
  with g have "gamma = coupling_term self maximize k ?costs" by (simp add: coupling_term_def)
  with pne t c1 show ?thesis by blast
qed

lemma coupling_term_nonneg: "0 \<le> coupling_term self maximize k costs"
  unfolding coupling_term_def by (rule sum_list_nonneg) auto

lemma CSA_accept_probability_eq:
  "CSA_Tacc self k \<noteq> 0 \<Longrightarrow>
     CSA_accept_probability self maximize k (coupling_term self maximize k costs) (Some cost) ycost =
       Inr (acceptance self maximize k costs cost ycost)"
proof -
  assume t: "CSA_Tacc self k \<noteq> 0"
  let ?e = "exp (- ycost * CSA_mult maximize / CSA_Tacc self k)"
  have "0 < ?e + coupling_term self maximize k costs"
    using coupling_term_nonneg [of self maximize k costs] exp_gt_zero [of "- ycost * CSA_mult maximize / CSA_Tacc self k"]
    by linarith
  then have nz: "?e + coupling_term self maximize k costs \<noteq> 0" by simp
  show ?thesis
    using t nz
    by (simp add: CSA_accept_probability_def CSA_comp_def improves_def acceptance_def CSA_exp_def
        bind_err_simps)
qed

lemma SA_accept_decided:
  "sa_y p = Some y \<Longrightarrow>
     SA_accept P r (p\<lparr>sa_ycost := Some ycost\<rparr>) = Inr (SA_decided (uniform 0 1 r \<le> P) y ycost p)"
  by (simp add: SA_accept_def SA_decided_def Let_def)

lemma CSA_generation_Inr:
  assumes gen: "CSA_generation self rnd f maximize iteration (processes, i) = Inr (processes', i')"
  shows "\<exists>costs. map sa_cost processes = map Some costs \<and>
           length processes' = length processes \<and>
           i' = i + csa_num_dimensions self * length processes + length processes \<and>
           processes \<noteq> [] \<and> CSA_Tacc self (real iteration) \<noteq> 0 \<and>
           (\<forall>j<length processes.
              length (sa_x (processes ! j)) = csa_num_dimensions self \<and>
              processes' ! j =
                SA_decided
                  (uniform 0 1 (rnd (i + csa_num_dimensions self * length processes + j))
                     \<le> acceptance self maximize (real iteration) costs (costs ! j)
                         (evaluate (csa_bounds self) f
                            (CSA_proposal self rnd (i + csa_num_dimensions self * j) (real iteration)
                               (processes ! j))))
                  (CSA_proposal self rnd (i + csa_num_dimensions self * j) (real iteration)
                     (processes ! j))
                  (evaluate (csa_bounds self) f
                     (CSA_proposal self rnd (i + csa_num_dimensions self * j) (real iteration)
                        (processes ! j)))
                  (processes ! j))"
proof -
  let ?k = "real iteration" and ?d = "csa_num_dimensions self" and ?n = "length processes"
  let ?step = "\<lambda>gamma i (process, ycost).
            let process = process\<lparr>sa_ycost := Some ycost\<rparr> in
            bind_err (CSA_accept_probability self maximize ?k gamma (sa_cost process) ycost)
              (\<lambda>accept_probability.
            bind_err (SA_accept accept_probability (rnd i) process) (\<lambda>process.
              Inr (process, Suc i)))"
  from gen obtain ps1 i1 cs gamma where
    g1: "mapM_rng (SA_generate self rnd (CSA_T self ?k)) i processes = Inr (ps1, i1)"
    and g2: "CSA_costs self f ps1 = Inr cs"
    and g3: "CSA_gamma self maximize ?k ps1 = Inr gamma"
    and g4: "mapM_rng (?step gamma) i1 (zip ps1 cs) = Inr (processes', i')"
    unfolding CSA_generation_def Let_def by (auto simp: bind_err_Inr)
  have "\<And>i a b i'. a \<in> set processes \<Longrightarrow> SA_generate self rnd (CSA_T self ?k) i a = Inr (b, i')
          \<Longrightarrow> i' = i + ?d"
    by (simp add: SA_generate_Inr)
  from mapM_rng_Inr [OF this g1]
  have l1: "length ps1 = ?n" and i1: "i1 = i + ?d * ?n"
    and e1: "\<forall>j<?n. SA_generate self rnd (CSA_T self ?k) (i + ?d * j) (processes ! j)
                  = Inr (ps1 ! j, i + ?d * j + ?d)"
    by simp_all
  have p1: "length (sa_x (processes ! j)) = ?d \<and>
            ps1 ! j = (processes ! j)\<lparr>sa_y := Some (CSA_proposal self rnd (i + ?d * j) ?k (processes ! j))\<rparr>"
    if "j < ?n" for j
    using e1 that by (simp add: SA_generate_Inr CSA_proposal_def)
  from CSA_costs_Inr [OF g2] l1
  have lc: "length cs = ?n"
    and ec: "\<forall>j<?n. \<exists>y. sa_y (ps1 ! j) = Some y \<and> cs ! j = evaluate (csa_bounds self) f y"
    by simp_all
  have c1: "cs ! j = evaluate (csa_bounds self) f (CSA_proposal self rnd (i + ?d * j) ?k (processes ! j))"
    if "j < ?n" for j
    using ec p1 that by auto
  from CSA_gamma_Inr [OF g3] obtain costs where
    ne: "ps1 \<noteq> []" and t: "CSA_Tacc self ?k \<noteq> 0"
    and co: "map sa_cost ps1 = map Some costs"
    and ga: "gamma = coupling_term self maximize ?k costs" by blast
  from co have lco: "length costs = ?n" using l1 by (metis length_map)
  have co1: "sa_cost (ps1 ! j) = Some (costs ! j)" if "j < ?n" for j
    using co that l1 lco by (metis nth_map)
  have co': "map sa_cost processes = map Some costs"
  proof (rule nth_equalityI)
    show "length (map sa_cost processes) = length (map Some costs)" using lco by simp
  next
    fix j assume "j < length (map sa_cost processes)"
    then have j: "j < ?n" by simp
    from co1 [OF j] p1 [OF j] have "sa_cost (processes ! j) = Some (costs ! j)" by simp
    then show "map sa_cost processes ! j = map Some costs ! j" using j lco by simp
  qed
  have "\<And>i a b i'. a \<in> set (zip ps1 cs) \<Longrightarrow> ?step gamma i a = Inr (b, i') \<Longrightarrow> i' = i + 1"
    by (auto simp: Let_def bind_err_Inr)
  from mapM_rng_Inr [OF this g4]
  have l4: "length processes' = ?n" and i4: "i' = i1 + ?n"
    and e4: "\<forall>j<?n. ?step gamma (i1 + j) (zip ps1 cs ! j) = Inr (processes' ! j, i1 + j + 1)"
    using l1 lc by simp_all
  have d4: "processes' ! j =
      SA_decided
        (uniform 0 1 (rnd (i + ?d * ?n + j))
           \<le> acceptance self maximize ?k costs (costs ! j)
               (evaluate (csa_bounds self) f (CSA_proposal self rnd (i + ?d * j) ?k (processes ! j))))
        (CSA_proposal self rnd (i + ?d * j) ?k (processes ! j))
        (evaluate (csa_bounds self) f (CSA_proposal self rnd (i + ?d * j) ?k (processes ! j)))
        (processes ! j)"
    if j: "j < ?n" for j
  proof -
    let ?y = "CSA_proposal self rnd (i + ?d * j) ?k (processes ! j)"
    let ?yc = "evaluate (csa_bounds self) f ?y"
    from j l1 lc have z: "zip ps1 cs ! j = (ps1 ! j, cs ! j)" by simp
    have y1: "sa_y (ps1 ! j) = Some ?y" using p1 [OF j] by simp
    have pr: "CSA_accept_probability self maximize ?k gamma (Some (costs ! j)) ?yc
              = Inr (acceptance self maximize ?k costs (costs ! j) ?yc)"
      unfolding ga by (rule CSA_accept_probability_eq [OF t])
    from e4 j have "?step gamma (i1 + j) (zip ps1 cs ! j) = Inr (processes' ! j, i1 + j + 1)"
      by blast
    then have "?step gamma (i1 + j) (ps1 ! j, cs ! j) = Inr (processes' ! j, i1 + j + 1)"
      unfolding z .
    then have "processes' ! j =
        SA_decided (uniform 0 1 (rnd (i1 + j)) \<le> acceptance self maximize ?k costs (costs ! j) ?yc)
          ?y ?yc (ps1 ! j)"
      by (simp add: Let_def c1 [OF j] co1 [OF j] pr bind_err_simps SA_accept_decided [OF y1])
    also have "\<dots> =
        SA_decided (uniform 0 1 (rnd (i1 + j)) \<le> acceptance self maximize ?k costs (costs ! j) ?yc)
          ?y ?yc (processes ! j)"
      using p1 [OF j] by (simp add: SA_decided_def)
    finally show ?thesis unfolding i1 .
  qed
  from ne l1 have pne: "processes \<noteq> []" by auto
  show ?thesis
    using co' l4 i4 i1 pne t p1 d4 by (intro exI [of _ costs]) simp
qed


lemma CSA_initialization_example: "CSA_initialization csa0 rnd0 f0 = Inr ([sa0], 2)"
  by (simp add: CSA_initialization_def csa0_def sa0_def rnd0_def f0_def bind_err_def
      uniform_in_bounds_def zip_star_def min_length_def uniform_def CSA_costs_def SA_init_def
      SA_accept_def evaluate_def Let_def)

lemma CSA_generation_example:
  "CSA_generation csa0 rnd0 f0 False 0 ([sa0], 2) = Inr ([SA_decided False [3 / 2] 0 sa0], 4)"
  by (simp add: CSA_generation_def csa0_def sa0_def rnd0_def f0_def bind_err_def SA_generate_def
      CSA_g_def cauchy_sample_def uniform_def CSA_T_def CSA_costs_def evaluate_def CSA_gamma_def
      CSA_exp_def CSA_Tacc_def CSA_mult_def CSA_accept_probability_def CSA_comp_def SA_accept_def
      SA_decided_def Let_def tan_45)

text \<open>
  Claim C1, as the code has it. In generation \<open>k\<close>, with \<open>\<gamma>(k)\<close> the sum over the
  processes of \<open>exp(-cost(x)*sign/Tacc(k))\<close> for the costs accepted before the
  generation, the draw \<open>u\<close> of every process is compared with the acceptance
  probability \<open>1\<close> when the proposal's cost strictly improves on the process's
  accepted cost, and with \<open>expcost / (expcost + \<gamma>(k))\<close>, where
  \<open>expcost = exp(-ycost*sign/Tacc(k))\<close>, when it does not.
\<close>

theorem CSA_generation_acceptance:
  assumes "CSA_generation self rnd f maximize iteration (processes, i) = Inr (processes', i')"
  shows "\<exists>costs. map sa_cost processes = map Some costs \<and>
           (\<forall>j<length processes.
              let k = real iteration;
                  d = csa_num_dimensions self;
                  y = CSA_proposal self rnd (i + d * j) k (processes ! j);
                  ycost = evaluate (csa_bounds self) f y;
                  expcost = exp (- ycost * CSA_mult maximize / CSA_Tacc self k);
                  gamma = coupling_term self maximize k costs;
                  accept_probability =
                    (if improves maximize ycost (costs ! j) then 1 else expcost / (expcost + gamma));
                  u = uniform 0 1 (rnd (i + d * length processes + j))
              in processes' ! j = SA_decided (u \<le> accept_probability) y ycost (processes ! j))"
proof -
  from CSA_generation_Inr [OF assms] obtain costs where
    c: "map sa_cost processes = map Some costs"
    and d: "\<forall>j<length processes.
              processes' ! j =
                SA_decided
                  (uniform 0 1 (rnd (i + csa_num_dimensions self * length processes + j))
                     \<le> acceptance self maximize (real iteration) costs (costs ! j)
                         (evaluate (csa_bounds self) f
                            (CSA_proposal self rnd (i + csa_num_dimensions self * j) (real iteration)
                               (processes ! j))))
                  (CSA_proposal self rnd (i + csa_num_dimensions self * j) (real iteration)
                     (processes ! j))
                  (evaluate (csa_bounds self) f
                     (CSA_proposal self rnd (i + csa_num_dimensions self * j) (real iteration)
                        (processes ! j)))
                  (processes ! j)"
    by blast
  show ?thesis
    using c d unfolding Let_def acceptance_def by (intro exI [of _ costs]) simp
qed

theorem CSA_generation_acceptance_witness:
  "CSA_generation csa0 rnd0 f0 False 0 ([sa0], 2) = Inr ([SA_decided False [3 / 2] 0 sa0], 4) \<and>
   (\<exists>costs. map sa_cost [sa0] = map Some costs \<and>
      (\<forall>j<length [sa0].
         let k = real 0;
             d = csa_num_dimensions csa0;
             y = CSA_proposal csa0 rnd0 (2 + d * j) k ([sa0] ! j);
             ycost = evaluate (csa_bounds csa0) f0 y;
             expcost = exp (- ycost * CSA_mult False / CSA_Tacc csa0 k);
             gamma = coupling_term csa0 False k costs;
             accept_probability =
               (if improves False ycost (costs ! j) then 1 else expcost / (expcost + gamma));
             u = uniform 0 1 (rnd0 (2 + d * length [sa0] + j))
         in [SA_decided False [3 / 2] 0 sa0] ! j = SA_decided (u \<le> accept_probability) y ycost ([sa0] ! j)))"
  using CSA_generation_acceptance [OF CSA_generation_example] CSA_generation_example by simp

text \<open>
  The probability the specification gives, \<open>expcost / \<gamma>(k)\<close>, is not the one the
  code uses: one process of cost 0 proposes a point of cost 0 in generation 0 with
  \<open>Tacc = 1\<close>. The claimed probability is 1; the code computes \<open>1/2\<close> and, on the
  draw \<open>3/4\<close>, rejects the proposal.
\<close>

theorem CSA_acceptance_not_as_claimed:
  "CSA_gamma csa0 False 0 [sa0] = Inr 1 \<and>
   coupling_term csa0 False 0 [0] = 1 \<and>
   claimed_acceptance csa0 False 0 [0] 0 0 = 1 \<and>
   CSA_accept_probability csa0 False 0 1 (sa_cost sa0) 0 = Inr (1 / 2) \<and>
   uniform 0 1 (rnd0 3) = 3 / 4 \<and>
   CSA_generation csa0 rnd0 f0 False 0 ([sa0], 2) = Inr ([SA_decided False [3 / 2] 0 sa0], 4)"
  using CSA_generation_example
  by (simp add: CSA_gamma_def coupling_term_def claimed_acceptance_def improves_def
      CSA_accept_probability_def CSA_comp_def CSA_exp_def CSA_Tacc_def CSA_mult_def csa0_def
      sa0_def rnd0_def uniform_def bind_err_def)

section \<open>The logs of coupled simulated annealing\<close>

























section \<open>Properties of particle swarm optimization\<close>


































section \<open>The reflection step of Nelder-Mead\<close>

lemma sum_of_squares_positional: "static_key_order [''x'', ''y''] sum_of_squares [a, b] = a * a + b * b"
  by (simp add: static_key_order_def sum_of_squares_def)

lemma upt_small: "[0..<3] = [0, 1, 2]" "[0..<2] = [0, Suc 0]"
  by (simp_all add: upt_rec)

lemma NelderMead_simplex_example: "NelderMead_simplex (static_key_order [''x'', ''y''] sum_of_squares) [1, 1] =
       ([[1, 1], [21 / 20, 1], [1, 21 / 20]], [2, 841 / 400, 841 / 400])"
  by (simp add: NelderMead_simplex_def Let_def upt_small sum_of_squares_positional)

lemma sort_vertices_example: "sort_vertices [[1, 1], [21 / 20, 1], [1, 21 / 20]] [2, 841 / 400, 841 / 400] =
       ([[1, 1], [21 / 20, 1], [1, 21 / 20]], [2, 841 / 400, 841 / 400])"
  by (simp add: sort_vertices_def enumerate_py_def Let_def upt_small)

lemma simplex_center_example: "simplex_center [[1, 1], [21 / 20, 1]] = [41 / 40, 1]"
  by (simp add: simplex_center_def zip_star_def min_length_def upt_small Let_def)

lemma reflect_example: "reflect [41 / 40, 1] [1, 21 / 20] 1 = [21 / 20, 19 / 20]"
  by (simp add: reflect_def scale_def)

text \<open>
  Claim C2 fails on the code. Minimizing \<open>x\<^sup>2 + y\<^sup>2\<close> from \<open>x = 1, y = 1\<close>, the first
  sorted simplex has the values \<open>2\<close>, \<open>2.1025\<close>, \<open>2.1025\<close>, and the reflected point
  \<open>(1.05, 0.95)\<close> has the value \<open>2.005\<close>, strictly between the best and the
  second-worst value. The iteration does not make it the new worst vertex: the test
  compares the value with the vertex arrays and never holds, so the contracted point
  \<open>(1.0125, 1.025)\<close> of value \<open>2.07578125\<close> is stored instead.
\<close>

theorem NelderMead_reflection_rejected:
  "NelderMead_simplex (static_key_order [''x'', ''y''] sum_of_squares) [1, 1] =
       ([[1, 1], [21 / 20, 1], [1, 21 / 20]], [2, 841 / 400, 841 / 400]) \<and>
   sort_vertices [[1, 1], [21 / 20, 1], [1, 21 / 20]] [2, 841 / 400, 841 / 400] =
       ([[1, 1], [21 / 20, 1], [1, 21 / 20]], [2, 841 / 400, 841 / 400]) \<and>
   reflect (simplex_center [[1, 1], [21 / 20, 1]]) [1, 21 / 20] 1 = [21 / 20, 19 / 20] \<and>
   static_key_order [''x'', ''y''] sum_of_squares [21 / 20, 19 / 20] = 401 / 200 \<and>
   (2::real) < 401 / 200 \<and> (401 / 200 :: real) < 841 / 400 \<and>
   NelderMead_iteration (static_key_order [''x'', ''y''] sum_of_squares)
       ([[1, 1], [21 / 20, 1], [1, 21 / 20]], [2, 841 / 400, 841 / 400]) =
     ([[1, 1], [21 / 20, 1], [81 / 80, 41 / 40]], [2, 841 / 400, 2657 / 1280])"
proof -
  have it: "NelderMead_iteration (static_key_order [''x'', ''y''] sum_of_squares)
       ([[1, 1], [21 / 20, 1], [1, 21 / 20]], [2, 841 / 400, 841 / 400]) =
     ([[1, 1], [21 / 20, 1], [81 / 80, 41 / 40]], [2, 841 / 400, 2657 / 1280])"
    by (simp add: NelderMead_iteration_def Let_def simplex_center_example reflect_example sum_of_squares_positional array_less_float_def
        reflect_def scale_def)
  show ?thesis
    by (intro conjI) (simp_all add: NelderMead_simplex_example sort_vertices_example simplex_center_example reflect_example sum_of_squares_positional it)
qed

end
